theory Spec2Isabelle
  imports Complex_Main
begin

section \<open>Values and errors\<close>

text \<open>
  The program is Python. Its \<open>float\<close> values are modelled by \<^typ>\<open>real\<close>: every
  arithmetic operation is exact, so rounding error, overflow to infinity and NaN are
  outside the model. Python integers are \<^typ>\<open>int\<close>, strings are \<^typ>\<open>string\<close>.
  Every exception the modelled code can raise is a value of \<open>error\<close>; a function that
  can raise returns \<open>error + 'a\<close> with \<open>Inl\<close> for the exception.
\<close>

datatype error =
    ZeroDivisionError
  | ValueError
  | IndexError
  | KeyError
  | AttributeError
  | NotImplementedError
  | NetworkError string

type_synonym 'a result = "error + 'a"

text \<open>
  A field of an exchange response is text. \<open>float(...)\<close> either parses it to a number
  or raises \<open>ValueError\<close>; the parser itself is not modelled, a cell records its outcome.
\<close>

datatype cell = Cell real | Unparsable

fun float_cell :: "cell \<Rightarrow> real result" where
  "float_cell (Cell r) = Inr r"
| "float_cell Unparsable = Inl ValueError"

type_synonym kline = "cell list"

type_synonym ticker = "string \<rightharpoonup> cell"

text \<open>\<open>float(k[4])\<close>: the close of one candle.\<close>

definition close_of :: "kline \<Rightarrow> real result" where
  "close_of k = (if length k \<le> 4 then Inl IndexError else float_cell (k ! 4))"

text \<open>\<open>[float(k[4]) for k in klines]\<close>: left to right, the first failure is raised.\<close>

fun closes_of :: "kline list \<Rightarrow> real list result" where
  "closes_of [] = Inr []"
| "closes_of (k # ks) =
     (case close_of k of
        Inl e \<Rightarrow> Inl e
      | Inr c \<Rightarrow> (case closes_of ks of Inl e \<Rightarrow> Inl e | Inr cs \<Rightarrow> Inr (c # cs)))"

text \<open>\<open>float(ticker[key])\<close>.\<close>

definition ticker_float :: "ticker \<Rightarrow> string \<Rightarrow> real result" where
  "ticker_float t key = (case t key of None \<Rightarrow> Inl KeyError | Some c \<Rightarrow> float_cell c)"

text \<open>Python's \<open>xs[i:]\<close> for any integer \<open>i\<close>; \<open>xs[-n:]\<close> is \<open>slice_from xs (- n)\<close>.\<close>

definition slice_from :: "'a list \<Rightarrow> int \<Rightarrow> 'a list" where
  "slice_from xs i =
     (if i < 0 then drop (nat (int (length xs) + i)) xs else drop (nat i) xs)"

text \<open>Python's true division on floats.\<close>

definition py_div :: "real \<Rightarrow> real \<Rightarrow> real result" where
  "py_div a b = (if b = 0 then Inl ZeroDivisionError else Inr (a / b))"

text \<open>
  Python's \<open>round(x, nd)\<close>: to the nearest multiple of \<open>10 ^ - nd\<close>, a tie going to the
  even neighbour.
\<close>

definition py_round :: "real \<Rightarrow> nat \<Rightarrow> real" where
  "py_round x nd =
     (let s = 10 ^ nd;
          y = x * s;
          f = \<lfloor>y\<rfloor>;
          d = y - of_int f
      in (if d < 1 / 2 then of_int f
          else if 1 / 2 < d then of_int (f + 1)
          else if even f then of_int f
          else of_int (f + 1)) / s)"

text \<open>
  A dictionary from field names to values of any type (a recommendation, for one) is
  an association list, and \<open>dict_get d key dflt\<close> is \<open>d.get(key, default)\<close>.
\<close>

datatype pyval = PNone | PBool bool | PNum real | PStr string

type_synonym pydict = "(string \<times> pyval) list"

definition dict_get :: "pydict \<Rightarrow> string \<Rightarrow> pyval \<Rightarrow> pyval" where
  "dict_get d key dflt = (case map_of d key of None \<Rightarrow> dflt | Some v \<Rightarrow> v)"

section \<open>Market data: the derivations of \<open>MarketDataManager\<close>\<close>

record indicators =
  sma_20 :: real
  rsi_14 :: real
  price_vs_sma :: real

record market_snapshot =
  symbol :: string
  current_price :: real
  price_change_24h :: real
  volume_24h :: real
  timestamp :: string
  trend :: string
  volatility :: real
  indicators :: indicators
  high_24h :: real
  low_24h :: real

text \<open>\<open>_calculate_trend\<close>\<close>

definition calculate_trend :: "kline list \<Rightarrow> string result" where
  "calculate_trend klines =
     (if klines = [] \<or> length klines < 2 then Inr ''neutral''
      else (case closes_of (slice_from klines (- 6)) of
              Inl e \<Rightarrow> Inl e
            | Inr recent_closes \<Rightarrow>
                (let first_price = hd recent_closes;
                     last_price = last recent_closes
                 in (case py_div (last_price - first_price) first_price of
                       Inl e \<Rightarrow> Inl e
                     | Inr q \<Rightarrow>
                         (let price_change = q * 100
                          in (if price_change > 1 then Inr ''bullish''
                              else if price_change < - 1 then Inr ''bearish''
                              else Inr ''neutral''))))))"

text \<open>
  \<open>_calculate_volatility\<close>: the comprehension over \<open>range(1, len(recent_prices))\<close> is the
  recursion over adjacent pairs.
\<close>

fun price_changes :: "real list \<Rightarrow> real list result" where
  "price_changes (p # q # ps) =
     (case py_div (q - p) p of
        Inl e \<Rightarrow> Inl e
      | Inr c \<Rightarrow> (case price_changes (q # ps) of
                    Inl e \<Rightarrow> Inl e
                  | Inr cs \<Rightarrow> Inr (\<bar>c * 100\<bar> # cs)))"
| "price_changes ps = Inr []"

definition calculate_volatility :: "kline list \<Rightarrow> real result" where
  "calculate_volatility klines =
     (if klines = [] \<or> length klines < 2 then Inr 0
      else case closes_of (slice_from klines (- 12)) of
        Inl e \<Rightarrow> Inl e
      | Inr recent_prices \<Rightarrow>
          (case price_changes recent_prices of
             Inl e \<Rightarrow> Inl e
           | Inr changes \<Rightarrow> py_div (sum_list changes) (real (length changes))))"

text \<open>\<open>_calculate_sma\<close>\<close>

definition calculate_sma :: "real list \<Rightarrow> int \<Rightarrow> real result" where
  "calculate_sma prices period =
     (if int (length prices) < period
      then Inr (if prices \<noteq> [] then last prices else 0)
      else py_div (sum_list (slice_from prices (- period))) (real_of_int period))"

text \<open>
  \<open>_calculate_rsi\<close>. The three comprehensions are \<open>deltas\<close>, \<open>gains\<close> and \<open>losses\<close>;
  \<open>avg_gain\<close> and \<open>avg_loss\<close> are the two averages of the source.
\<close>

definition deltas :: "real list \<Rightarrow> real list" where
  "deltas prices = map (\<lambda>i. prices ! i - prices ! (i - 1)) [1 ..< length prices]"

definition gains :: "real list \<Rightarrow> real list" where
  "gains ds = map (\<lambda>d. if d > 0 then d else 0) ds"

definition losses :: "real list \<Rightarrow> real list" where
  "losses ds = map (\<lambda>d. if d < 0 then - d else 0) ds"

definition avg_gain :: "real list \<Rightarrow> int \<Rightarrow> real result" where
  "avg_gain prices period =
     py_div (sum_list (slice_from (gains (deltas prices)) (- period))) (real_of_int period)"

definition avg_loss :: "real list \<Rightarrow> int \<Rightarrow> real result" where
  "avg_loss prices period =
     py_div (sum_list (slice_from (losses (deltas prices)) (- period))) (real_of_int period)"

definition calculate_rsi :: "real list \<Rightarrow> int \<Rightarrow> real result" where
  "calculate_rsi prices period =
     (if int (length prices) < period + 1 then Inr 50
      else case avg_gain prices period of
        Inl e \<Rightarrow> Inl e
      | Inr ag \<Rightarrow>
          (case avg_loss prices period of
             Inl e \<Rightarrow> Inl e
           | Inr al \<Rightarrow>
               (if al = 0 then Inr 100
                else (case py_div ag al of
                        Inl e \<Rightarrow> Inl e
                      | Inr rs \<Rightarrow>
                          (case py_div 100 (1 + rs) of
                             Inl e \<Rightarrow> Inl e
                           | Inr q \<Rightarrow> Inr (py_round (100 - q) 2))))))"

text \<open>\<open>_calculate_indicators\<close>; the dictionary's entries are evaluated in order.\<close>

definition calculate_indicators :: "kline list \<Rightarrow> indicators result" where
  "calculate_indicators klines =
     (if klines = [] \<or> length klines < 14
      then Inr \<lparr>sma_20 = 0, rsi_14 = 50, price_vs_sma = 0\<rparr>
      else case closes_of klines of
        Inl e \<Rightarrow> Inl e
      | Inr closes \<Rightarrow>
          (case calculate_sma closes 20 of
             Inl e \<Rightarrow> Inl e
           | Inr sma \<Rightarrow>
               (case calculate_rsi closes 14 of
                  Inl e \<Rightarrow> Inl e
                | Inr rsi \<Rightarrow>
                    (case calculate_sma closes 20 of
                       Inl e \<Rightarrow> Inl e
                     | Inr sma' \<Rightarrow>
                         (case py_div (last closes) sma' of
                            Inl e \<Rightarrow> Inl e
                          | Inr q \<Rightarrow>
                              Inr \<lparr>sma_20 = sma, rsi_14 = rsi,
                                   price_vs_sma = (q - 1) * 100\<rparr>)))))"

text \<open>
  The specification's wording of the two indicators, kept apart from the code's
  definitions above so that the two can be compared: the mean of the last \<open>n\<close> closes,
  and the average-gain/average-loss RSI over the last 14 differences of adjacent closes,
  forced to 100 when the average loss is zero and rounded to 2 decimals.
\<close>

definition mean :: "real list \<Rightarrow> real" where
  "mean xs = sum_list xs / real (length xs)"

definition last_n :: "nat \<Rightarrow> 'a list \<Rightarrow> 'a list" where
  "last_n n xs = drop (length xs - n) xs"

definition spec_rsi_14 :: "real list \<Rightarrow> real" where
  "spec_rsi_14 closes =
     (let ds = last_n 14 (map (\<lambda>(a, b). b - a) (zip closes (tl closes)));
          average_gain = (\<Sum>d\<leftarrow>ds. max d 0) / 14;
          average_loss = (\<Sum>d\<leftarrow>ds. max (- d) 0) / 14
      in if average_loss = 0 then 100
         else py_round (100 - 100 / (1 + average_gain / average_loss)) 2)"

section \<open>Market data: fetch with cache fallback\<close>

text \<open>
  The exchange client is the environment: each call either returns a response or raises.
  \<open>now_iso\<close> is what \<open>datetime.now().isoformat()\<close> gives during the call.
\<close>

record data_source =
  get_ticker :: "string \<Rightarrow> ticker result"
  get_klines :: "string \<Rightarrow> kline list result"
  now_iso :: string

text \<open>What the program writes to its log, message texts left out.\<close>

datatype log_event =
    FetchError string error
  | NoMarketData string
  | NoAnalysis string
  | NoActiveBot string
  | UpdatedBot string
  | StatusUpdate string real real string pyval
  | StatusError error
  | ProcessError string error
  | MockApplied int

text \<open>The body of the \<open>try\<close> block of \<open>get_market_data\<close>, up to the cache write.\<close>

definition fetch_snapshot :: "data_source \<Rightarrow> string \<Rightarrow> market_snapshot result" where
  "fetch_snapshot src sy =
     (case get_ticker src sy of Inl e \<Rightarrow> Inl e | Inr tk \<Rightarrow>
      (case get_klines src sy of Inl e \<Rightarrow> Inl e | Inr klines \<Rightarrow>
      (case ticker_float tk ''lastPrice'' of Inl e \<Rightarrow> Inl e | Inr price \<Rightarrow>
      (case ticker_float tk ''priceChangePercent'' of Inl e \<Rightarrow> Inl e | Inr change \<Rightarrow>
      (case ticker_float tk ''volume'' of Inl e \<Rightarrow> Inl e | Inr vol \<Rightarrow>
      (case calculate_trend klines of Inl e \<Rightarrow> Inl e | Inr tr \<Rightarrow>
      (case calculate_volatility klines of Inl e \<Rightarrow> Inl e | Inr vola \<Rightarrow>
      (case calculate_indicators klines of Inl e \<Rightarrow> Inl e | Inr ind \<Rightarrow>
      (case ticker_float tk ''highPrice'' of Inl e \<Rightarrow> Inl e | Inr hi \<Rightarrow>
      (case ticker_float tk ''lowPrice'' of Inl e \<Rightarrow> Inl e | Inr lo \<Rightarrow>
         Inr \<lparr>symbol = sy, current_price = price, price_change_24h = change,
              volume_24h = vol, timestamp = now_iso src, trend = tr, volatility = vola,
              indicators = ind, high_24h = hi, low_24h = lo\<rparr>))))))))))"

type_synonym snapshot_cache = "string \<rightharpoonup> market_snapshot"

text \<open>
  \<open>get_market_data\<close>: the returned value (\<open>None\<close> is Python's \<open>None\<close>), the cache
  afterwards and what was logged. The handler is \<open>except Exception\<close>, so every error of
  the body ends in the second branch.
\<close>

definition get_market_data ::
  "data_source \<Rightarrow> snapshot_cache \<Rightarrow> string
     \<Rightarrow> market_snapshot option \<times> snapshot_cache \<times> log_event list" where
  "get_market_data src cached_data sy =
     (case fetch_snapshot src sy of
        Inr market_data \<Rightarrow> (Some market_data, cached_data(sy \<mapsto> market_data), [])
      | Inl e \<Rightarrow> (cached_data sy, cached_data, [FetchError sy e]))"

text \<open>
  The \<open>/api/market-data\<close> endpoint of \<open>main.py\<close>: a snapshot, or the "no data" reply.
  (A snapshot dictionary is never empty, so \<open>if market_data\<close> tests for \<open>None\<close>.)
\<close>

datatype api_reply = Snapshot market_snapshot | ErrorReply string

definition api_market_data ::
  "data_source \<Rightarrow> snapshot_cache \<Rightarrow> api_reply \<times> snapshot_cache" where
  "api_market_data src cached_data =
     (case get_market_data src cached_data ''BTCUSDT'' of
        (Some market_data, cache', _) \<Rightarrow> (Snapshot market_data, cache')
      | (None, cache', _) \<Rightarrow> (ErrorReply ''No market data available'', cache'))"

section \<open>The mock bot manager\<close>

text \<open>The dictionary that \<open>apply_ai_recommendations\<close> appends to a bot's trades.\<close>

record trade_record =
  tr_timestamp :: pyval
  tr_price :: pyval
  tr_direction :: pyval
  tr_confidence :: pyval
  tr_should_trade :: pyval

text \<open>\<open>MockBotManager\<close>, with the two fields of \<open>BaseBotManager\<close>.\<close>

record mock_bot_manager =
  active_bots :: "string \<rightharpoonup> int"
  deal_history :: "pydict list"
  mock_trades :: "int \<rightharpoonup> trade_record list"
  next_bot_id :: int

definition mock_init :: mock_bot_manager where
  "mock_init = \<lparr>active_bots = Map.empty, deal_history = [], mock_trades = Map.empty,
                next_bot_id = 1000\<rparr>"

text \<open>\<open>create_bot\<close> returns \<open>{'id': bot_id, 'pair': pair}\<close>.\<close>

definition create_bot :: "mock_bot_manager \<Rightarrow> string \<Rightarrow> (int \<times> string) \<times> mock_bot_manager" where
  "create_bot m pair =
     (let bot_id = next_bot_id m
      in ((bot_id, pair),
          m\<lparr>next_bot_id := next_bot_id m + 1,
            active_bots := (active_bots m)(pair \<mapsto> bot_id)\<rparr>))"

text \<open>\<open>self.mock_trades.get(bot_id, [])\<close>\<close>

definition trades_of :: "mock_bot_manager \<Rightarrow> int \<Rightarrow> trade_record list" where
  "trades_of m bot_id = (case mock_trades m bot_id of None \<Rightarrow> [] | Some ts \<Rightarrow> ts)"

definition trade_of :: "pydict \<Rightarrow> trade_record" where
  "trade_of recommendations =
     \<lparr>tr_timestamp = dict_get recommendations ''timestamp'' PNone,
      tr_price = dict_get recommendations ''price'' PNone,
      tr_direction = dict_get recommendations ''direction'' PNone,
      tr_confidence = dict_get recommendations ''confidence'' PNone,
      tr_should_trade = dict_get recommendations ''should_trade'' (PBool False)\<rparr>"

text \<open>
  \<open>MockBotManager.apply_ai_recommendations\<close>: the returned flag, the manager afterwards
  and what the method logs (its \<open>logging.info\<close> line). With an integer id and a
  dictionary no statement of the \<open>try\<close> block raises, so the handler's \<open>return False\<close> is
  not a branch of the model.
\<close>

definition apply_ai_recommendations ::
  "mock_bot_manager \<Rightarrow> int \<Rightarrow> pydict \<Rightarrow> bool \<times> mock_bot_manager \<times> log_event list" where
  "apply_ai_recommendations m bot_id recommendations =
     (let m1 = (if bot_id \<notin> dom (mock_trades m)
                then m\<lparr>mock_trades := (mock_trades m)(bot_id \<mapsto> [])\<rparr> else m);
          m2 = m1\<lparr>mock_trades := (mock_trades m1)(bot_id \<mapsto>
                     trades_of m1 bot_id @ [trade_of recommendations])\<rparr>
      in (True, m2, [MockApplied bot_id]))"

record bot_stats =
  profit :: string
  total_trades :: nat
  last_trade :: "trade_record option"

text \<open>\<open>MockBotManager.get_bot_stats\<close>; the result type of the source is \<open>Optional[Dict]\<close>.\<close>

definition get_bot_stats :: "mock_bot_manager \<Rightarrow> int \<Rightarrow> bot_stats option" where
  "get_bot_stats m bot_id =
     (let trades = trades_of m bot_id
      in Some \<lparr>profit = ''0.00%'', total_trades = length trades,
               last_trade = (if trades \<noteq> [] then Some (last trades) else None)\<rparr>)"

text \<open>A run of the manager: any sequence of the two mutating calls.\<close>

datatype mock_call = CreateBot string | Apply int pydict

fun run_calls :: "mock_bot_manager \<Rightarrow> mock_call list \<Rightarrow> mock_bot_manager" where
  "run_calls m [] = m"
| "run_calls m (CreateBot pair # cs) = run_calls (snd (create_bot m pair)) cs"
| "run_calls m (Apply bot_id r # cs) =
     run_calls (fst (snd (apply_ai_recommendations m bot_id r))) cs"

text \<open>The records that the \<open>Apply\<close> calls of a run hand to one bot, in order.\<close>

fun applied_to :: "int \<Rightarrow> mock_call list \<Rightarrow> trade_record list" where
  "applied_to b [] = []"
| "applied_to b (CreateBot pair # cs) = applied_to b cs"
| "applied_to b (Apply bot_id r # cs) =
     (if bot_id = b then trade_of r # applied_to b cs else applied_to b cs)"

section \<open>The websocket manager\<close>

text \<open>
  A connection is known by its identity. \<open>active_connections\<close> is a Python set: it is a
  list without duplicates here, in the order in which the \<open>for\<close> loop of \<open>broadcast\<close> visits
  it. \<open>subscribed_symbols\<close> is a Python set of strings, which a \<open>for\<close> loop visits in hash
  order, an order that differs from one run of the program to the next: it is a set
  here, and the collector below takes the order of its visit as a parameter. The fields
  \<open>last_rest_price\<close>, \<open>last_ws_update\<close> and \<open>ws_connection\<close>, which no method below reads,
  are left out; \<open>events\<close> is added to record what a run does.
\<close>

type_synonym websocket = nat

type_synonym callback = nat

record tick =
  tick_symbol :: string
  tick_price :: "real option"
  tick_change_24h :: "real option"
  tick_volume_24h :: "real option"
  tick_timestamp :: "string option"

datatype task = CollectMarketData

text \<open>
  What a run does to the outside, in order: deliveries to clients, callback calls, the
  removal of failed clients, logged errors and the argument of each \<open>asyncio.sleep\<close>.
\<close>

datatype ws_event =
    Delivered websocket tick
  | SendFailed websocket
  | Pruned "websocket list"
  | Called callback tick
  | CallbackFailed callback
  | CollectError error
  | Slept nat

record ws_manager =
  active_connections :: "websocket list"
  market_data :: "string \<rightharpoonup> tick"
  price_callbacks :: "callback list"
  is_running :: bool
  binance_client :: bool
  tasks :: "task list"
  subscribed_symbols :: "string set"
  events :: "ws_event list"

definition ws_init :: ws_manager where
  "ws_init = \<lparr>active_connections = [], market_data = Map.empty, price_callbacks = [],
              is_running = False, binance_client = False, tasks = [],
              subscribed_symbols = {}, events = []\<rparr>"

text \<open>
  The environment of the manager: the exchange client, which sends raise and which
  callbacks raise.
\<close>

record ws_env =
  exchange :: data_source
  send_fails :: "websocket \<Rightarrow> bool"
  callback_fails :: "callback \<Rightarrow> bool"

text \<open>\<open>set.add\<close>, and \<open>set.remove\<close>, which raises \<open>KeyError\<close> on a missing element.\<close>

definition set_add :: "'a \<Rightarrow> 'a list \<Rightarrow> 'a list" where
  "set_add x xs = (if x \<in> set xs then xs else xs @ [x])"

definition set_remove :: "'a \<Rightarrow> 'a list \<Rightarrow> 'a list result" where
  "set_remove x xs = (if x \<in> set xs then Inr (removeAll x xs) else Inl KeyError)"

text \<open>
  \<open>start\<close>. \<open>client\<close> is the outcome of \<open>AsyncClient.create()\<close>; the result is the exception
  that \<open>start\<close> re-raises, if any, and the manager afterwards.
\<close>

definition start :: "unit result \<Rightarrow> ws_manager \<Rightarrow> error option \<times> ws_manager" where
  "start client s =
     (if \<not> is_running s then
        (case client of
           Inl e \<Rightarrow> (Some e, s\<lparr>is_running := False\<rparr>)
         | Inr _ \<Rightarrow> (None, s\<lparr>is_running := True, binance_client := True,
                           tasks := tasks s @ [CollectMarketData]\<rparr>))
      else (None, s))"

text \<open>\<open>subscribe_symbols\<close>\<close>

fun subscribe_symbols :: "ws_manager \<Rightarrow> string list \<Rightarrow> ws_manager" where
  "subscribe_symbols s [] = s"
| "subscribe_symbols s (sy # symbols) =
     subscribe_symbols
       (if sy \<notin> subscribed_symbols s
        then s\<lparr>subscribed_symbols := insert sy (subscribed_symbols s),
               market_data := (market_data s)(sy \<mapsto>
                 \<lparr>tick_symbol = sy, tick_price = None, tick_change_24h = None,
                  tick_volume_24h = None, tick_timestamp = None\<rparr>)\<rparr>
        else s)
       symbols"

text \<open>
  \<open>broadcast\<close>: the loop collects the connections whose send raised in \<open>disconnected\<close>;
  the live set changes once, after the loop.
\<close>

fun broadcast_loop ::
  "(websocket \<Rightarrow> bool) \<Rightarrow> tick \<Rightarrow> websocket list \<Rightarrow> websocket list \<Rightarrow> ws_event list
     \<Rightarrow> websocket list \<times> ws_event list" where
  "broadcast_loop fails data [] disconnected evs = (disconnected, evs)"
| "broadcast_loop fails data (connection # rest) disconnected evs =
     (if fails connection
      then broadcast_loop fails data rest (set_add connection disconnected)
             (evs @ [SendFailed connection])
      else broadcast_loop fails data rest disconnected (evs @ [Delivered connection data]))"

definition broadcast :: "ws_env \<Rightarrow> ws_manager \<Rightarrow> tick \<Rightarrow> ws_manager" where
  "broadcast env s data =
     (case broadcast_loop (send_fails env) data (active_connections s) [] [] of
        (disconnected, evs) \<Rightarrow>
          s\<lparr>active_connections := filter (\<lambda>c. c \<notin> set disconnected) (active_connections s),
            events := events s @ evs @ [Pruned disconnected]\<rparr>)"

text \<open>
  \<open>connect\<close> adds the connection and then waits in its receive loop, where other tasks
  run; when the channel ends, by \<open>WebSocketDisconnect\<close> or by another exception, the
  handler removes the connection. The model has the two halves: \<open>connect_accept\<close> up to
  the loop and \<open>connect_closed\<close> for either handler.
\<close>

definition connect_accept :: "ws_manager \<Rightarrow> websocket \<Rightarrow> ws_manager" where
  "connect_accept s ws = s\<lparr>active_connections := set_add ws (active_connections s)\<rparr>"

definition connect_closed :: "ws_manager \<Rightarrow> websocket \<Rightarrow> ws_manager result" where
  "connect_closed s ws =
     (case set_remove ws (active_connections s) of
        Inl e \<Rightarrow> Inl e
      | Inr conns \<Rightarrow> Inr (s\<lparr>active_connections := conns\<rparr>))"

text \<open>\<open>add_price_callback\<close> and \<open>remove_price_callback\<close>\<close>

definition add_price_callback :: "ws_manager \<Rightarrow> callback \<Rightarrow> ws_manager" where
  "add_price_callback s cb =
     (if cb \<notin> set (price_callbacks s)
      then s\<lparr>price_callbacks := price_callbacks s @ [cb]\<rparr> else s)"

definition remove_price_callback :: "ws_manager \<Rightarrow> callback \<Rightarrow> ws_manager" where
  "remove_price_callback s cb =
     (if cb \<in> set (price_callbacks s)
      then s\<lparr>price_callbacks := remove1 cb (price_callbacks s)\<rparr> else s)"

text \<open>
  \<open>_collect_market_data\<close>. \<open>read_tick\<close> is the ticker call and the dictionary built from
  it; \<open>notify\<close> is the loop over the callbacks; \<open>collect_symbols\<close> is the \<open>for\<close> loop over
  the subscribed symbols, which an exception leaves at once: it returns the exception,
  if any, and the manager as the loop left it. \<open>collect_pass\<close> is one round of the
  \<open>while\<close> loop with its \<open>try\<close>; its argument \<open>visit\<close> is the order in which the \<open>for\<close> loop
  of that round visits the set, any enumeration of \<open>subscribed_symbols\<close> without
  repetition (\<open>visiting_order\<close>).
\<close>

definition visiting_order :: "ws_manager \<Rightarrow> string list \<Rightarrow> bool" where
  "visiting_order s visit \<longleftrightarrow> set visit = subscribed_symbols s \<and> distinct visit"

definition read_tick :: "data_source \<Rightarrow> string \<Rightarrow> tick result" where
  "read_tick src sy =
     (case get_ticker src sy of Inl e \<Rightarrow> Inl e | Inr tk \<Rightarrow>
      (case ticker_float tk ''lastPrice'' of Inl e \<Rightarrow> Inl e | Inr price \<Rightarrow>
      (case ticker_float tk ''priceChangePercent'' of Inl e \<Rightarrow> Inl e | Inr change \<Rightarrow>
      (case ticker_float tk ''volume'' of Inl e \<Rightarrow> Inl e | Inr vol \<Rightarrow>
         Inr \<lparr>tick_symbol = sy, tick_price = Some price, tick_change_24h = Some change,
              tick_volume_24h = Some vol, tick_timestamp = Some (now_iso src)\<rparr>))))"

fun notify :: "(callback \<Rightarrow> bool) \<Rightarrow> tick \<Rightarrow> callback list \<Rightarrow> ws_event list" where
  "notify fails data [] = []"
| "notify fails data (cb # cbs) =
     (if fails cb then [Called cb data, CallbackFailed cb] else [Called cb data])
       @ notify fails data cbs"

fun collect_symbols :: "ws_env \<Rightarrow> string list \<Rightarrow> ws_manager \<Rightarrow> error option \<times> ws_manager" where
  "collect_symbols env [] s = (None, s)"
| "collect_symbols env (sy # symbols) s =
     (case read_tick (exchange env) sy of
        Inl e \<Rightarrow> (Some e, s)
      | Inr data \<Rightarrow>
          (let s1 = s\<lparr>market_data := (market_data s)(sy \<mapsto> data)\<rparr>;
               s2 = s1\<lparr>events := events s1 @ notify (callback_fails env) data (price_callbacks s1)\<rparr>;
               s3 = broadcast env s2 data
           in collect_symbols env symbols s3))"

definition collect_pass :: "ws_env \<Rightarrow> string list \<Rightarrow> ws_manager \<Rightarrow> ws_manager" where
  "collect_pass env visit s =
     (case collect_symbols env visit s of
        (None, s') \<Rightarrow> s'\<lparr>events := events s' @ [Slept 1]\<rparr>
      | (Some e, s') \<Rightarrow> s'\<lparr>events := events s' @ [CollectError e, Slept 5]\<rparr>)"

text \<open>
  What the processing of the fetched ticks of a pass does to the outside, written out
  from the description and not from the loop, to compare the loop with it. For one tick:
  every registered callback is called with it, a call that raises being logged; then the
  tick is sent to every live connection and the connections whose send failed are
  removed. The ticks are processed one after the other, so a later tick goes only to the
  connections that are left.
\<close>

definition tick_events :: "ws_env \<Rightarrow> callback list \<Rightarrow> websocket list \<Rightarrow> tick \<Rightarrow> ws_event list" where
  "tick_events env cbs conns data =
     concat (map (\<lambda>cb. if callback_fails env cb then [Called cb data, CallbackFailed cb]
                       else [Called cb data]) cbs)
     @ map (\<lambda>c. if send_fails env c then SendFailed c else Delivered c data) conns
     @ [Pruned (filter (send_fails env) conns)]"

fun pass_events :: "ws_env \<Rightarrow> callback list \<Rightarrow> websocket list \<Rightarrow> tick list \<Rightarrow> ws_event list" where
  "pass_events env cbs conns [] = []"
| "pass_events env cbs conns (data # rest) =
     tick_events env cbs conns data
     @ pass_events env cbs (filter (\<lambda>c. \<not> send_fails env c) conns) rest"

section \<open>The orchestrator: \<open>TradingBot\<close>\<close>

text \<open>
  \<open>TradingBot\<close> holds a bot manager chosen at construction. What the orchestrator uses of
  it is this interface over the manager's own state \<open>'m\<close>: the lookup
  \<open>active_bots.get(pair)\<close>, \<open>apply_ai_recommendations\<close> and \<open>get_bot_stats\<close>. A call may
  raise (those of \<open>BaseBotManager\<close> all do), and the state it leaves is kept;
  \<open>apply_recs\<close> also gives what the manager wrote to the log during the call.
\<close>

record 'm bot_interface =
  lookup_bot :: "'m \<Rightarrow> string \<Rightarrow> int option"
  apply_recs :: "'m \<Rightarrow> int \<Rightarrow> pydict \<Rightarrow> bool result \<times> 'm \<times> log_event list"
  stats_of :: "'m \<Rightarrow> int \<Rightarrow> bot_stats option result"

definition mock_interface :: "mock_bot_manager bot_interface" where
  "mock_interface =
     \<lparr>lookup_bot = (\<lambda>m pair. active_bots m pair),
      apply_recs = (\<lambda>m bot_id r.
        case apply_ai_recommendations m bot_id r of (ok, m', lg) \<Rightarrow> (Inr ok, m', lg)),
      stats_of = (\<lambda>m bot_id. Inr (get_bot_stats m bot_id))\<rparr>"

text \<open>
  The collaborators of one cycle. \<open>AIAnalyzer.analyze_market\<close> is not part of the sources
  at hand: it is a parameter that returns a recommendation, returns \<open>None\<close>, or raises.
\<close>

record 'm orchestrator_env =
  market_source :: data_source
  analyze_market :: "market_snapshot \<Rightarrow> pydict option result"
  manager :: "'m bot_interface"

record 'm trading_bot =
  cached_data :: snapshot_cache
  bot_manager :: 'm
  logged :: "log_event list"

definition write_log :: "log_event \<Rightarrow> 'm trading_bot \<Rightarrow> 'm trading_bot" where
  "write_log ev tb = tb\<lparr>logged := logged tb @ [ev]\<rparr>"

text \<open>
  \<open>log_status\<close>: everything is inside its own \<open>try\<close>, so it returns in every case. A
  manager that answers \<open>None\<close> makes \<open>stats.get\<close> raise \<open>AttributeError\<close>.
\<close>

definition log_status ::
  "'m orchestrator_env \<Rightarrow> 'm trading_bot \<Rightarrow> string \<Rightarrow> market_snapshot \<Rightarrow> pydict
     \<Rightarrow> 'm trading_bot" where
  "log_status env tb pair snapshot analysis =
     (case lookup_bot (manager env) (bot_manager tb) pair of
        None \<Rightarrow> tb
      | Some bot_id \<Rightarrow>
          (if bot_id = 0 then tb
           else (case stats_of (manager env) (bot_manager tb) bot_id of
                   Inl e \<Rightarrow> write_log (StatusError e) tb
                 | Inr None \<Rightarrow> write_log (StatusError AttributeError) tb
                 | Inr (Some stats) \<Rightarrow>
                     write_log
                       (StatusUpdate pair (current_price snapshot)
                          (price_change_24h snapshot) (profit stats)
                          (dict_get analysis ''average_confidence'' (PStr ''Unknown'')))
                       tb)))"

text \<open>
  The \<open>try\<close> block of \<open>process_trading_pair\<close>: the exception that leaves it, if any, and
  the bot as the block left it. \<open>not analysis\<close> holds for \<open>None\<close> and for the empty
  dictionary, \<open>not bot_id\<close> for \<open>None\<close> and for \<open>0\<close>.
\<close>

definition process_steps ::
  "'m orchestrator_env \<Rightarrow> 'm trading_bot \<Rightarrow> string \<Rightarrow> error option \<times> 'm trading_bot" where
  "process_steps env tb pair =
     (case get_market_data (market_source env) (cached_data tb) pair of
        (fetched, cache', lg) \<Rightarrow>
          (let tb1 = tb\<lparr>cached_data := cache', logged := logged tb @ lg\<rparr>
           in (case fetched of
                 None \<Rightarrow> (None, write_log (NoMarketData pair) tb1)
               | Some snapshot \<Rightarrow>
                   (case analyze_market env snapshot of
                      Inl e \<Rightarrow> (Some e, tb1)
                    | Inr None \<Rightarrow> (None, write_log (NoAnalysis pair) tb1)
                    | Inr (Some analysis) \<Rightarrow>
                        (if analysis = [] then (None, write_log (NoAnalysis pair) tb1)
                         else (case lookup_bot (manager env) (bot_manager tb1) pair of
                                 None \<Rightarrow> (None, write_log (NoActiveBot pair) tb1)
                               | Some bot_id \<Rightarrow>
                                   (if bot_id = 0
                                    then (None, write_log (NoActiveBot pair) tb1)
                                    else (case apply_recs (manager env) (bot_manager tb1)
                                                 bot_id analysis of
                                            (Inl e, m', lg) \<Rightarrow>
                                              (Some e, tb1\<lparr>bot_manager := m',
                                                          logged := logged tb1 @ lg\<rparr>)
                                          | (Inr success, m', lg) \<Rightarrow>
                                              (let tb2 = tb1\<lparr>bot_manager := m',
                                                            logged := logged tb1 @ lg\<rparr>
                                               in (if success
                                                   then (None,
                                                     log_status env
                                                       (write_log (UpdatedBot pair) tb2)
                                                       pair snapshot analysis)
                                                   else (None, tb2)))))))))))"

text \<open>
  \<open>process_trading_pair\<close>: the \<open>try\<close> block with its \<open>except Exception\<close> handler. The
  result is \<open>Inl\<close> when an exception leaves the method.
\<close>

definition process_trading_pair ::
  "'m orchestrator_env \<Rightarrow> 'm trading_bot \<Rightarrow> string \<Rightarrow> 'm trading_bot result" where
  "process_trading_pair env tb pair =
     (case process_steps env tb pair of
        (None, tb') \<Rightarrow> Inr tb'
      | (Some e, tb') \<Rightarrow> Inr (write_log (ProcessError pair e) tb'))"

text \<open>
  One round of the \<open>while\<close> loop of \<open>run\<close>: the \<open>for\<close> loop over \<open>Config.TRADING_PAIRS\<close>, which
  an exception out of \<open>process_trading_pair\<close> would leave. \<open>run\<close> repeats the round, with
  a sleep in between, until it is stopped.
\<close>

fun run_pairs ::
  "'m orchestrator_env \<Rightarrow> 'm trading_bot \<Rightarrow> string list \<Rightarrow> 'm trading_bot result" where
  "run_pairs env tb [] = Inr tb"
| "run_pairs env tb (pair # pairs) =
     (case process_trading_pair env tb pair of
        Inl e \<Rightarrow> Inl e
      | Inr tb' \<Rightarrow> run_pairs env tb' pairs)"

section \<open>Concrete inputs\<close>

text \<open>
  Candles with a given close, two rising series of closes, an exchange that is down, and
  a snapshot to put into the cache.
\<close>

definition candle :: "real \<Rightarrow> kline" where
  "candle c = [Cell 0, Cell c, Cell c, Cell c, Cell c, Cell 1]"

definition rising14 :: "real list" where
  "rising14 = [1, 2, 3, 4, 5, 6, 7, 8, 9, 10, 11, 12, 13, 14]"

definition rising15 :: "real list" where
  "rising15 = [1, 2, 3, 4, 5, 6, 7, 8, 9, 10, 11, 12, 13, 14, 15]"

definition exchange_down :: data_source where
  "exchange_down =
     \<lparr>get_ticker = (\<lambda>sy. Inl (NetworkError ''timeout'')),
      get_klines = (\<lambda>sy. Inl (NetworkError ''timeout'')),
      now_iso = ''2024-01-01T00:00:05''\<rparr>"

definition old_snapshot :: market_snapshot where
  "old_snapshot =
     \<lparr>symbol = ''BTCUSDT'', current_price = 42000, price_change_24h = 3 / 2,
      volume_24h = 1000, timestamp = ''2024-01-01T00:00:00'', trend = ''neutral'',
      volatility = 0, indicators = \<lparr>sma_20 = 0, rsi_14 = 50, price_vs_sma = 0\<rparr>,
      high_24h = 43000, low_24h = 41000\<rparr>"

text \<open>A recommendation that advises against trading, and a manager with one bot.\<close>

definition declined :: pydict where
  "declined = [(''direction'', PStr ''hold''), (''confidence'', PNum 40),
               (''should_trade'', PBool False)]"

definition one_bot :: mock_bot_manager where
  "one_bot = snd (create_bot mock_init ''BTCUSDT'')"

text \<open>
  An exchange that fails for \<open>BTCUSDT\<close> only, a client whose sends fail, and a manager
  with one client and one callback that is subscribed to two symbols.
\<close>

definition good_ticker :: ticker where
  "good_ticker =
     [''lastPrice'' \<mapsto> Cell 2000, ''priceChangePercent'' \<mapsto> Cell 1, ''volume'' \<mapsto> Cell 10,
      ''highPrice'' \<mapsto> Cell 2100, ''lowPrice'' \<mapsto> Cell 1900]"

definition btc_down :: data_source where
  "btc_down =
     \<lparr>get_ticker = (\<lambda>sy. if sy = ''BTCUSDT'' then Inl (NetworkError ''timeout'')
                          else Inr good_ticker),
      get_klines = (\<lambda>sy. Inr []),
      now_iso = ''2024-01-01T00:00:05''\<rparr>"

definition eth_tick :: tick where
  "eth_tick = \<lparr>tick_symbol = ''ETHUSDT'', tick_price = Some 2000, tick_change_24h = Some 1,
               tick_volume_24h = Some 10, tick_timestamp = Some ''2024-01-01T00:00:05''\<rparr>"

definition client_7_gone :: ws_env where
  "client_7_gone = \<lparr>exchange = btc_down, send_fails = (\<lambda>c. c = 7),
                    callback_fails = (\<lambda>cb. False)\<rparr>"

definition all_clients_fine :: ws_env where
  "all_clients_fine = \<lparr>exchange = btc_down, send_fails = (\<lambda>c. False),
                       callback_fails = (\<lambda>cb. False)\<rparr>"

definition started :: ws_manager where
  "started = add_price_callback (connect_accept (snd (start (Inr ()) ws_init)) 1) 1"

definition both_symbols :: ws_manager where
  "both_symbols = subscribe_symbols started [''BTCUSDT'', ''ETHUSDT'']"

definition three_clients :: ws_manager where
  "three_clients = connect_accept (connect_accept (connect_accept ws_init 6) 7) 8"

definition eth_only :: ws_manager where
  "eth_only = subscribe_symbols started [''ETHUSDT'']"

text \<open>
  A cycle over two pairs: the exchange fails for \<open>BTCUSDT\<close>, the analysis advises to buy,
  and the mock manager has a bot for each pair.
\<close>

definition buy_signal :: pydict where
  "buy_signal = [(''direction'', PStr ''buy''), (''confidence'', PNum 90),
                 (''should_trade'', PBool True), (''average_confidence'', PNum 90)]"

definition eth_snapshot :: market_snapshot where
  "eth_snapshot =
     \<lparr>symbol = ''ETHUSDT'', current_price = 2000, price_change_24h = 1,
      volume_24h = 10, timestamp = ''2024-01-01T00:00:05'', trend = ''neutral'',
      volatility = 0, indicators = \<lparr>sma_20 = 0, rsi_14 = 50, price_vs_sma = 0\<rparr>,
      high_24h = 2100, low_24h = 1900\<rparr>"

definition two_bots :: mock_bot_manager where
  "two_bots = run_calls mock_init [CreateBot ''BTCUSDT'', CreateBot ''ETHUSDT'']"

definition mock_cycle_env :: "mock_bot_manager orchestrator_env" where
  "mock_cycle_env =
     \<lparr>market_source = btc_down,
      analyze_market = (\<lambda>snapshot. Inr (Some buy_signal)),
      manager = mock_interface\<rparr>"

definition fresh_bot :: "mock_bot_manager trading_bot" where
  "fresh_bot = \<lparr>cached_data = Map.empty, bot_manager = two_bots, logged = []\<rparr>"

section \<open>Properties of the indicators\<close>

subsection \<open>Rounding keeps the range\<close>

lemma py_round_2_range:
  assumes "0 \<le> x" "x \<le> 100"
  shows "0 \<le> py_round x 2 \<and> py_round x 2 \<le> 100"
proof -
  define f where "f = \<lfloor>x * 100\<rfloor>"
  have f0: "0 \<le> f" unfolding f_def using assms by simp
  have fle: "f \<le> 10000" unfolding f_def using assms by (simp add: floor_le_iff)
  have fx: "of_int f \<le> x * 100" unfolding f_def by simp
  have step: "x * 100 - of_int f \<noteq> 0 \<Longrightarrow> f + 1 \<le> 10000"
  proof -
    assume "x * 100 - of_int f \<noteq> 0"
    with fx have "of_int f < x * 100" by simp
    also have "\<dots> \<le> 10000" using assms by simp
    finally have "f < 10000" by simp
    then show ?thesis by simp
  qed
  have r: "py_round x 2 = of_int f / 100 \<or>
           (py_round x 2 = of_int (f + 1) / 100 \<and> x * 100 - of_int f \<noteq> 0)"
    unfolding py_round_def Let_def f_def by auto
  then show ?thesis
  proof
    assume "py_round x 2 = of_int f / 100"
    with f0 fle show ?thesis by simp
  next
    assume a: "py_round x 2 = of_int (f + 1) / 100 \<and> x * 100 - of_int f \<noteq> 0"
    then have "f + 1 \<le> 10000" using step by blast
    then have "real_of_int (f + 1) \<le> 10000" by linarith
    moreover have "0 \<le> real_of_int (f + 1)" using f0 by linarith
    ultimately show ?thesis using a by simp
  qed
qed

subsection \<open>Slices, gains and losses\<close>

lemma set_slice_from: "set (slice_from xs i) \<subseteq> set xs"
  unfolding slice_from_def by (cases "i < 0") (simp_all add: set_drop_subset)

lemma nat_int_minus: "nat (int m - int n) = m - n"
  by arith

lemma slice_from_neg: "0 < n \<Longrightarrow> slice_from xs (- int n) = last_n n xs"
  by (simp add: slice_from_def last_n_def nat_int_minus)

lemma slice_from_14: "slice_from xs (- 14) = last_n 14 xs"
  using slice_from_neg [of 14 xs] by simp

lemma slice_from_20: "slice_from xs (- 20) = last_n 20 xs"
  using slice_from_neg [of 20 xs] by simp

lemma gains_nonneg: "x \<in> set (gains ds) \<Longrightarrow> 0 \<le> x"
proof -
  assume "x \<in> set (gains ds)"
  then have "x \<in> (\<lambda>d. if d > 0 then d else 0) ` set ds"
    unfolding gains_def by (simp only: set_map)
  then obtain d where "x = (if d > 0 then d else 0)" by (rule imageE)
  then show "0 \<le> x" by (cases "d > 0") simp_all
qed

lemma losses_nonneg: "x \<in> set (losses ds) \<Longrightarrow> 0 \<le> x"
proof -
  assume "x \<in> set (losses ds)"
  then have "x \<in> (\<lambda>d. if d < 0 then - d else 0) ` set ds"
    unfolding losses_def by (simp only: set_map)
  then obtain d where "x = (if d < 0 then - d else 0)" by (rule imageE)
  then show "0 \<le> x" by (cases "d < 0") simp_all
qed

lemma sum_list_slice_gains_nonneg: "0 \<le> sum_list (slice_from (gains ds) i)"
proof (rule sum_list_nonneg)
  fix x assume "x \<in> set (slice_from (gains ds) i)"
  then have "x \<in> set (gains ds)"
    using set_slice_from [of "gains ds" i] by (rule subsetD [rotated])
  then show "0 \<le> x" by (rule gains_nonneg)
qed

lemma sum_list_slice_losses_nonneg: "0 \<le> sum_list (slice_from (losses ds) i)"
proof (rule sum_list_nonneg)
  fix x assume "x \<in> set (slice_from (losses ds) i)"
  then have "x \<in> set (losses ds)"
    using set_slice_from [of "losses ds" i] by (rule subsetD [rotated])
  then show "0 \<le> x" by (rule losses_nonneg)
qed

lemma avg_gain_14:
  "avg_gain prices 14 = Inr (sum_list (slice_from (gains (deltas prices)) (- 14)) / 14)"
  by (simp add: avg_gain_def py_div_def)

lemma avg_loss_14:
  "avg_loss prices 14 = Inr (sum_list (slice_from (losses (deltas prices)) (- 14)) / 14)"
  by (simp add: avg_loss_def py_div_def)

subsection \<open>The RSI\<close>

lemma rsi_formula_range:
  assumes "0 \<le> g" "0 < l"
  shows "0 \<le> 100 - 100 / (1 + g / l)" "100 - 100 / (1 + g / l) \<le> (100::real)"
proof -
  have "1 \<le> 1 + g / l" using assms by simp
  then have "100 / (1 + g / l) \<le> 100" by (simp add: divide_le_eq)
  then show "0 \<le> 100 - 100 / (1 + g / l)" by simp
  have "0 \<le> 100 / (1 + g / l)" using assms by simp
  then show "100 - 100 / (1 + g / l) \<le> (100::real)" by simp
qed

text \<open>No division of \<open>_calculate_rsi\<close> fails for period 14: it has three outcomes.\<close>

lemma calculate_rsi_14_cases:
  "calculate_rsi prices 14 =
     (let g = sum_list (slice_from (gains (deltas prices)) (- 14)) / 14;
          l = sum_list (slice_from (losses (deltas prices)) (- 14)) / 14
      in if length prices < 15 then Inr 50
         else if l = 0 then Inr 100
         else Inr (py_round (100 - 100 / (1 + g / l)) 2))"
proof -
  let ?g = "sum_list (slice_from (gains (deltas prices)) (- 14)) / 14"
  let ?l = "sum_list (slice_from (losses (deltas prices)) (- 14)) / 14"
  have nn: "0 \<le> ?g"
    using sum_list_slice_gains_nonneg [of "deltas prices" "- 14"] by simp
  have ll: "0 \<le> ?l"
    using sum_list_slice_losses_nonneg [of "deltas prices" "- 14"] by simp
  show ?thesis
  proof (cases "?l = 0")
    case True
    then show ?thesis
      by (simp add: calculate_rsi_def avg_gain_14 avg_loss_14 Let_def)
  next
    case False
    with ll have lpos: "0 < ?l" by simp
    have "0 \<le> ?g / ?l" using nn lpos by (rule divide_nonneg_pos)
    then have "1 + ?g / ?l \<noteq> 0" by linarith
    with False show ?thesis
      by (simp add: calculate_rsi_def avg_gain_14 avg_loss_14 Let_def py_div_def)
  qed
qed

lemma rsi_range: "\<exists>r. calculate_rsi prices 14 = Inr r \<and> 0 \<le> r \<and> r \<le> 100"
proof -
  let ?g = "sum_list (slice_from (gains (deltas prices)) (- 14)) / 14"
  let ?l = "sum_list (slice_from (losses (deltas prices)) (- 14)) / 14"
  have nn: "0 \<le> ?g"
    using sum_list_slice_gains_nonneg [of "deltas prices" "- 14"] by simp
  have ll: "0 \<le> ?l"
    using sum_list_slice_losses_nonneg [of "deltas prices" "- 14"] by simp
  consider "length prices < 15" | "\<not> length prices < 15" "?l = 0"
    | "\<not> length prices < 15" "?l \<noteq> 0"
    by blast
  then show ?thesis
  proof cases
    case 1 then show ?thesis by (simp add: calculate_rsi_14_cases Let_def)
  next
    case 2 then show ?thesis by (simp add: calculate_rsi_14_cases Let_def)
  next
    case 3
    with ll have "0 < ?l" by simp
    from rsi_formula_range [OF nn this]
    have "0 \<le> py_round (100 - 100 / (1 + ?g / ?l)) 2 \<and>
          py_round (100 - 100 / (1 + ?g / ?l)) 2 \<le> 100"
      by (rule py_round_2_range)
    with 3 show ?thesis by (simp add: calculate_rsi_14_cases Let_def)
  qed
qed

text \<open>
  C7, as the code has it. For every price list \<open>_calculate_rsi\<close> with period 14 returns a
  value, and the value lies between 0 and 100. On a list of 15 prices or more, so that
  14 deltas exist, an average loss of zero over the last 14 deltas gives exactly 100. A
  list of fewer than 15 prices gives the default 50, whatever its deltas are.
\<close>

theorem rsi_in_range_and_100_without_loss:
  "(\<exists>r. calculate_rsi prices 14 = Inr r \<and> 0 \<le> r \<and> r \<le> 100) \<and>
   (15 \<le> length prices \<longrightarrow> avg_loss prices 14 = Inr 0 \<longrightarrow>
      calculate_rsi prices 14 = Inr 100) \<and>
   (length prices < 15 \<longrightarrow> calculate_rsi prices 14 = Inr 50)"
proof (intro conjI)
  show "\<exists>r. calculate_rsi prices 14 = Inr r \<and> 0 \<le> r \<and> r \<le> 100" by (rule rsi_range)
  show "15 \<le> length prices \<longrightarrow> avg_loss prices 14 = Inr 0 \<longrightarrow>
        calculate_rsi prices 14 = Inr 100"
    by (simp add: calculate_rsi_def avg_gain_14)
  show "length prices < 15 \<longrightarrow> calculate_rsi prices 14 = Inr 50"
    by (simp add: calculate_rsi_def)
qed

lemma deltas_rising15: "deltas rising15 = [1, 1, 1, 1, 1, 1, 1, 1, 1, 1, 1, 1, 1, 1]"
  by (simp add: deltas_def rising15_def)

theorem rsi_in_range_and_100_without_loss_witness:
  "15 \<le> length rising15 \<and> avg_loss rising15 14 = Inr 0 \<and>
   calculate_rsi rising15 14 = Inr 100 \<and>
   length [1, 2 :: real] < 15 \<and> calculate_rsi [1, 2] 14 = Inr 50"
proof -
  have l: "15 \<le> length rising15" by (simp add: rising15_def)
  have a: "avg_loss rising15 14 = Inr 0"
    by (simp add: avg_loss_def deltas_rising15 losses_def slice_from_def py_div_def)
  have s: "length [1, 2 :: real] < 15" by simp
  from rsi_in_range_and_100_without_loss [of rising15] l a
  have h: "calculate_rsi rising15 14 = Inr 100" by blast
  from rsi_in_range_and_100_without_loss [of "[1, 2]"] s
  have d: "calculate_rsi [1, 2] 14 = Inr 50" by blast
  from l a h s d show ?thesis by blast
qed

text \<open>
  C7 as stated fails on the prices 1, 2: the delta sequence is not empty (it is the one
  delta 1), the average loss over the last 14 deltas is zero, and the returned value is
  50, not 100.
\<close>

theorem rsi_without_loss_on_short_list_counterexample:
  "deltas [1, 2] = [1] \<and> deltas [1, 2] \<noteq> [] \<and>
   avg_loss [1, 2] 14 = Inr 0 \<and>
   calculate_rsi [1, 2] 14 = Inr 50 \<and>
   calculate_rsi [1, 2] 14 \<noteq> Inr 100"
proof -
  have d: "deltas [1, 2] = [1]" by (simp add: deltas_def)
  have a: "avg_loss [1, 2] 14 = Inr 0"
    by (simp add: avg_loss_def d losses_def slice_from_def py_div_def)
  have r: "calculate_rsi [1, 2] 14 = Inr 50" by (simp add: calculate_rsi_def)
  from d a r show ?thesis by simp
qed

subsection \<open>The indicators by number of candles\<close>

lemma close_of_candle: "close_of (candle c) = Inr c"
  by (simp add: close_of_def candle_def)

lemma closes_of_candles: "closes_of (map candle cs) = Inr cs"
  by (induction cs) (simp_all add: close_of_candle)

lemma closes_of_length: "closes_of ks = Inr cs \<Longrightarrow> length cs = length ks"
  by (induction ks arbitrary: cs) (auto split: sum.splits)

lemma calculate_sma_20:
  "calculate_sma closes 20 =
     Inr (if length closes < 20 then (if closes \<noteq> [] then last closes else 0)
          else mean (last_n 20 closes))"
  by (simp add: calculate_sma_def py_div_def slice_from_20 mean_def last_n_def)

text \<open>
  Once the closes parse, \<open>_calculate_indicators\<close> raises in one case only: the division
  by a moving average that is zero.
\<close>

lemma calculate_indicators_cases:
  assumes "closes_of klines = Inr closes"
  shows "calculate_indicators klines =
     (if length klines < 14 then Inr \<lparr>sma_20 = 0, rsi_14 = 50, price_vs_sma = 0\<rparr>
      else case calculate_sma closes 20 of
        Inl e \<Rightarrow> Inl e
      | Inr sma \<Rightarrow> (case calculate_rsi closes 14 of
           Inl e \<Rightarrow> Inl e
         | Inr rsi \<Rightarrow> if sma = 0 then Inl ZeroDivisionError
              else Inr \<lparr>sma_20 = sma, rsi_14 = rsi,
                        price_vs_sma = (last closes / sma - 1) * 100\<rparr>))"
  using assms by (auto simp: calculate_indicators_def py_div_def split: sum.splits)

text \<open>
  C5, as the code has it. With fewer than 14 closes the indicators are the defaults, so
  \<open>sma_20\<close> is 0. With 14 to 19 closes \<open>sma_20\<close> is the last close, not a mean. With 20
  closes or more it is the mean of the last 20 closes.
\<close>

theorem sma_20_by_length:
  assumes "closes_of klines = Inr closes"
  shows "(closes \<noteq> [] \<and> length closes < 14 \<longrightarrow>
            (\<exists>ind. calculate_indicators klines = Inr ind \<and> sma_20 ind = 0)) \<and>
         (calculate_indicators klines = Inr ind \<longrightarrow>
            (14 \<le> length closes \<and> length closes < 20 \<longrightarrow> sma_20 ind = last closes) \<and>
            (20 \<le> length closes \<longrightarrow> sma_20 ind = mean (last_n 20 closes)))"
proof -
  have len: "length closes = length klines" using assms by (rule closes_of_length)
  obtain r where r: "calculate_rsi closes 14 = Inr r" using rsi_range by blast
  show ?thesis
    using calculate_indicators_cases [OF assms] len r
    by (auto simp: calculate_sma_20 split: if_splits)
qed

theorem sma_20_by_length_witness:
  "closes_of (map candle rising14) = Inr rising14 \<and>
   calculate_indicators (map candle rising14) =
     Inr \<lparr>sma_20 = 14, rsi_14 = 50, price_vs_sma = 0\<rparr> \<and>
   14 \<le> length rising14 \<and> length rising14 < 20 \<and>
   sma_20 \<lparr>sma_20 = 14, rsi_14 = 50, price_vs_sma = 0\<rparr> = last rising14"
proof -
  have c: "closes_of (map candle rising14) = Inr rising14" by (rule closes_of_candles)
  have l: "14 \<le> length rising14 \<and> length rising14 < 20" by (simp add: rising14_def)
  have i: "calculate_indicators (map candle rising14) =
     Inr \<lparr>sma_20 = 14, rsi_14 = 50, price_vs_sma = 0\<rparr>"
    using calculate_indicators_cases [OF c]
    by (simp add: calculate_sma_20 calculate_rsi_14_cases rising14_def)
  from sma_20_by_length [OF c, of "\<lparr>sma_20 = 14, rsi_14 = 50, price_vs_sma = 0\<rparr>"] c l i
  show ?thesis by blast
qed

text \<open>
  C5 as stated fails on 14 closes 1, 2, ..., 14: the list is not empty and shorter than
  20, its mean is 7.5, and \<open>sma_20\<close> is 14.
\<close>

theorem sma_20_mean_counterexample:
  "rising14 \<noteq> [] \<and> length rising14 < 20 \<and>
   closes_of (map candle rising14) = Inr rising14 \<and>
   calculate_indicators (map candle rising14) =
     Inr \<lparr>sma_20 = 14, rsi_14 = 50, price_vs_sma = 0\<rparr> \<and>
   mean rising14 = 15 / 2 \<and>
   sma_20 \<lparr>sma_20 = 14, rsi_14 = 50, price_vs_sma = 0\<rparr> \<noteq> mean rising14"
proof -
  have c: "closes_of (map candle rising14) = Inr rising14" by (rule closes_of_candles)
  have i: "calculate_indicators (map candle rising14) =
     Inr \<lparr>sma_20 = 14, rsi_14 = 50, price_vs_sma = 0\<rparr>"
    using calculate_indicators_cases [OF c]
    by (simp add: calculate_sma_20 calculate_rsi_14_cases rising14_def)
  have m: "mean rising14 = 15 / 2" by (simp add: mean_def rising14_def)
  show ?thesis using c i m by (simp add: rising14_def)
qed

subsection \<open>The RSI of the code and of the specification\<close>

lemma deltas_zip: "deltas cs = map (\<lambda>(a, b). b - a) (zip cs (tl cs))"
proof (rule nth_equalityI)
  show "length (deltas cs) = length (map (\<lambda>(a, b). b - a) (zip cs (tl cs)))"
    by (simp add: deltas_def)
next
  fix i assume "i < length (deltas cs)"
  then have i: "i < length cs - 1" by (simp add: deltas_def)
  then show "deltas cs ! i = map (\<lambda>(a, b). b - a) (zip cs (tl cs)) ! i"
    by (simp add: deltas_def nth_tl)
qed

lemma sum_gains: "sum_list (last_n n (gains ds)) = (\<Sum>d\<leftarrow>last_n n ds. max d 0)"
proof -
  have "last_n n (gains ds) = map (\<lambda>d. max d 0) (last_n n ds)"
    by (simp add: last_n_def gains_def drop_map max_def)
  then show ?thesis by simp
qed

lemma sum_losses: "sum_list (last_n n (losses ds)) = (\<Sum>d\<leftarrow>last_n n ds. max (- d) 0)"
proof -
  have "(\<lambda>d::real. if d < 0 then - d else 0) = (\<lambda>d. max (- d) 0)"
    by (rule ext) (simp add: max_def)
  then have "last_n n (losses ds) = map (\<lambda>d. max (- d) 0) (last_n n ds)"
    by (simp add: last_n_def losses_def drop_map)
  then show ?thesis by simp
qed

lemma calculate_rsi_14_spec:
  "15 \<le> length closes \<Longrightarrow> calculate_rsi closes 14 = Inr (spec_rsi_14 closes)"
  by (simp add: calculate_rsi_14_cases slice_from_14 sum_gains sum_losses spec_rsi_14_def
      deltas_zip Let_def)

text \<open>
  C6, as the code has it. Fewer than 14 candles give exactly the defaults. When the
  derivation returns on 15 candles or more, \<open>rsi_14\<close> is the specification's RSI over the
  last 14 deltas; on exactly 14 candles, where only 13 deltas exist, it is the default 50.
\<close>

theorem indicators_defaults_and_rsi:
  "(length klines < 14 \<longrightarrow>
      calculate_indicators klines = Inr \<lparr>sma_20 = 0, rsi_14 = 50, price_vs_sma = 0\<rparr>) \<and>
   (closes_of klines = Inr closes \<longrightarrow> calculate_indicators klines = Inr ind \<longrightarrow>
      (length klines = 14 \<longrightarrow> rsi_14 ind = 50) \<and>
      (15 \<le> length klines \<longrightarrow> rsi_14 ind = spec_rsi_14 closes))"
proof (intro conjI impI)
  assume "length klines < 14"
  then show "calculate_indicators klines = Inr \<lparr>sma_20 = 0, rsi_14 = 50, price_vs_sma = 0\<rparr>"
    by (simp add: calculate_indicators_def)
next
  assume c: "closes_of klines = Inr closes" and i: "calculate_indicators klines = Inr ind"
    and l: "length klines = 14"
  have "length closes = 14" using closes_of_length [OF c] l by simp
  then have "calculate_rsi closes 14 = Inr 50" by (simp add: calculate_rsi_def)
  with i l show "rsi_14 ind = 50"
    using calculate_indicators_cases [OF c]
    by (auto simp: calculate_sma_20 split: if_splits)
next
  assume c: "closes_of klines = Inr closes" and i: "calculate_indicators klines = Inr ind"
    and l: "15 \<le> length klines"
  have "15 \<le> length closes" using closes_of_length [OF c] l by simp
  then have "calculate_rsi closes 14 = Inr (spec_rsi_14 closes)"
    by (rule calculate_rsi_14_spec)
  with i l show "rsi_14 ind = spec_rsi_14 closes"
    using calculate_indicators_cases [OF c]
    by (auto simp: calculate_sma_20 split: if_splits)
qed

lemma spec_rsi_14_rising14: "spec_rsi_14 rising14 = 100"
  by (simp add: spec_rsi_14_def rising14_def last_n_def)

lemma spec_rsi_14_rising15: "spec_rsi_14 rising15 = 100"
  by (simp add: spec_rsi_14_def rising15_def last_n_def)

theorem indicators_defaults_and_rsi_witness:
  "length (map candle [1, 2]) < 14 \<and>
   calculate_indicators (map candle [1, 2]) =
     Inr \<lparr>sma_20 = 0, rsi_14 = 50, price_vs_sma = 0\<rparr> \<and>
   closes_of (map candle rising15) = Inr rising15 \<and>
   calculate_indicators (map candle rising15) =
     Inr \<lparr>sma_20 = 15, rsi_14 = 100, price_vs_sma = 0\<rparr> \<and>
   15 \<le> length (map candle rising15) \<and>
   rsi_14 \<lparr>sma_20 = 15, rsi_14 = 100, price_vs_sma = 0\<rparr> = spec_rsi_14 rising15"
proof -
  have c: "closes_of (map candle rising15) = Inr rising15" by (rule closes_of_candles)
  have l: "15 \<le> length (map candle rising15)" by (simp add: rising15_def)
  have r: "calculate_rsi rising15 14 = Inr 100"
  proof -
    have "15 \<le> length rising15" by (simp add: rising15_def)
    then show ?thesis by (simp add: calculate_rsi_14_spec spec_rsi_14_rising15)
  qed
  have i: "calculate_indicators (map candle rising15) =
     Inr \<lparr>sma_20 = 15, rsi_14 = 100, price_vs_sma = 0\<rparr>"
    using calculate_indicators_cases [OF c] r
    by (simp add: calculate_sma_20 rising15_def)
  have s: "length (map candle [1, 2]) < 14" by simp
  from indicators_defaults_and_rsi [of "map candle [1, 2]"] s
  have d: "calculate_indicators (map candle [1, 2]) =
      Inr \<lparr>sma_20 = 0, rsi_14 = 50, price_vs_sma = 0\<rparr>" by blast
  from indicators_defaults_and_rsi
         [of "map candle rising15" rising15 "\<lparr>sma_20 = 15, rsi_14 = 100, price_vs_sma = 0\<rparr>"]
       c l i
  have "rsi_14 \<lparr>sma_20 = 15, rsi_14 = 100, price_vs_sma = 0\<rparr> = spec_rsi_14 rising15"
    by blast
  with s d c i l show ?thesis by blast
qed

text \<open>
  C6 as stated fails on the 14 candles with closes 1, 2, ..., 14: no close falls, so the
  average loss is zero and the specification's RSI is 100, while \<open>rsi_14\<close> is 50.
\<close>

theorem rsi_14_at_14_closes_counterexample:
  "14 \<le> length (map candle rising14) \<and>
   closes_of (map candle rising14) = Inr rising14 \<and>
   calculate_indicators (map candle rising14) =
     Inr \<lparr>sma_20 = 14, rsi_14 = 50, price_vs_sma = 0\<rparr> \<and>
   spec_rsi_14 rising14 = 100 \<and>
   rsi_14 \<lparr>sma_20 = 14, rsi_14 = 50, price_vs_sma = 0\<rparr> \<noteq> spec_rsi_14 rising14"
proof -
  have c: "closes_of (map candle rising14) = Inr rising14" by (rule closes_of_candles)
  have i: "calculate_indicators (map candle rising14) =
     Inr \<lparr>sma_20 = 14, rsi_14 = 50, price_vs_sma = 0\<rparr>"
    using calculate_indicators_cases [OF c]
    by (simp add: calculate_sma_20 calculate_rsi_14_cases rising14_def)
  show ?thesis using c i by (simp add: spec_rsi_14_rising14) (simp add: rising14_def)
qed

section \<open>Properties of the fetch\<close>

lemma fetch_snapshot_source_fails:
  "get_ticker src sy = Inl e \<or> (\<exists>tk. get_ticker src sy = Inr tk \<and> get_klines src sy = Inl e)
     \<Longrightarrow> fetch_snapshot src sy = Inl e"
  by (auto simp: fetch_snapshot_def)

lemma get_market_data_failure:
  "fetch_snapshot src sy = Inl e \<Longrightarrow>
     get_market_data src cache sy = (cache sy, cache, [FetchError sy e])"
  by (simp add: get_market_data_def)

lemma get_market_data_success:
  "fetch_snapshot src sy = Inr snap \<Longrightarrow>
     get_market_data src cache sy = (Some snap, cache(sy \<mapsto> snap), [])"
  by (simp add: get_market_data_def)

text \<open>
  C1. When a call to the exchange raises, \<open>get_market_data\<close> returns what the cache holds
  for the symbol (that snapshot, or \<open>None\<close> when there is none), leaves the cache as it
  was and raises nothing; the endpoint turns \<open>None\<close> into its "no data" reply.
\<close>

theorem fetch_failure_returns_cache:
  assumes "get_ticker src sy = Inl e \<or>
           (\<exists>tk. get_ticker src sy = Inr tk \<and> get_klines src sy = Inl e)"
  shows "get_market_data src cache sy = (cache sy, cache, [FetchError sy e]) \<and>
         (\<forall>snap. cache sy = Some snap \<longrightarrow> fst (get_market_data src cache sy) = Some snap) \<and>
         (cache sy = None \<longrightarrow> fst (get_market_data src cache sy) = None) \<and>
         (sy = ''BTCUSDT'' \<longrightarrow> cache sy = None \<longrightarrow>
            api_market_data src cache = (ErrorReply ''No market data available'', cache))"
proof -
  have "fetch_snapshot src sy = Inl e"
    using assms by (rule fetch_snapshot_source_fails)
  then have "get_market_data src cache sy = (cache sy, cache, [FetchError sy e])"
    by (rule get_market_data_failure)
  then show ?thesis by (auto simp: api_market_data_def)
qed

theorem fetch_failure_returns_cache_witness:
  "get_ticker exchange_down ''BTCUSDT'' = Inl (NetworkError ''timeout'') \<and>
   fst (get_market_data exchange_down [''BTCUSDT'' \<mapsto> old_snapshot] ''BTCUSDT'')
     = Some old_snapshot \<and>
   fst (get_market_data exchange_down Map.empty ''BTCUSDT'') = None \<and>
   api_market_data exchange_down Map.empty
     = (ErrorReply ''No market data available'', Map.empty)"
proof -
  have t: "get_ticker exchange_down ''BTCUSDT'' = Inl (NetworkError ''timeout'')"
    by (simp add: exchange_down_def)
  from fetch_failure_returns_cache
         [of exchange_down "''BTCUSDT''" "NetworkError ''timeout''"
             "[''BTCUSDT'' \<mapsto> old_snapshot]"] t
  have a: "fst (get_market_data exchange_down [''BTCUSDT'' \<mapsto> old_snapshot] ''BTCUSDT'')
     = Some old_snapshot" by simp
  from fetch_failure_returns_cache
         [of exchange_down "''BTCUSDT''" "NetworkError ''timeout''" Map.empty] t
  have b: "fst (get_market_data exchange_down Map.empty ''BTCUSDT'') = None \<and>
     api_market_data exchange_down Map.empty
       = (ErrorReply ''No market data available'', Map.empty)" by simp
  from t a b show ?thesis by blast
qed

section \<open>Properties of the mock bot manager\<close>

lemma trades_of_create_bot: "trades_of (snd (create_bot m pair)) b = trades_of m b"
  by (simp add: create_bot_def trades_of_def Let_def)

lemma trades_of_apply:
  "trades_of (fst (snd (apply_ai_recommendations m bot_id r))) b =
     (if b = bot_id then trades_of m b @ [trade_of r] else trades_of m b)"
  by (auto simp: apply_ai_recommendations_def trades_of_def Let_def split: option.splits)

lemma trades_of_run_calls: "trades_of (run_calls m calls) b = trades_of m b @ applied_to b calls"
proof (induction calls arbitrary: m)
  case Nil
  then show ?case by simp
next
  case (Cons c calls)
  show ?case
  proof (cases c)
    case (CreateBot pair)
    then show ?thesis by (simp add: Cons.IH trades_of_create_bot)
  next
    case (Apply bot_id r)
    then show ?thesis by (simp add: Cons.IH trades_of_apply)
  qed
qed

text \<open>
  C2, as the code has it. For every bot id and every recommendation whose \<open>should_trade\<close>
  is false, the mock's \<open>apply_ai_recommendations\<close> returns true and appends one record,
  with \<open>should_trade\<close> false in it, to that bot's trades: the mock records every
  recommendation together with its flag.
\<close>

theorem mock_apply_records_declined:
  assumes "map_of recommendations ''should_trade'' = Some (PBool False)"
  shows "fst (apply_ai_recommendations m bot_id recommendations) = True \<and>
         trades_of (fst (snd (apply_ai_recommendations m bot_id recommendations))) bot_id =
           trades_of m bot_id @ [trade_of recommendations] \<and>
         tr_should_trade (trade_of recommendations) = PBool False"
  using assms
  by (simp add: trades_of_apply) (simp add: apply_ai_recommendations_def trade_of_def dict_get_def Let_def)

theorem mock_apply_records_declined_witness:
  "map_of declined ''should_trade'' = Some (PBool False) \<and>
   fst (apply_ai_recommendations one_bot 1000 declined) = True \<and>
   trades_of (fst (snd (apply_ai_recommendations one_bot 1000 declined))) 1000 =
     trades_of one_bot 1000 @ [trade_of declined]"
proof -
  have d: "map_of declined ''should_trade'' = Some (PBool False)" by (simp add: declined_def)
  from mock_apply_records_declined [OF d, of one_bot 1000] d show ?thesis by blast
qed

text \<open>
  C2 as stated fails on the bot created first (id 1000) and a recommendation to hold: the
  call returns true and the bot's history, empty before, holds one record after.
\<close>

theorem mock_apply_declined_counterexample:
  "active_bots one_bot ''BTCUSDT'' = Some 1000 \<and>
   map_of declined ''should_trade'' = Some (PBool False) \<and>
   trades_of one_bot 1000 = [] \<and>
   fst (apply_ai_recommendations one_bot 1000 declined) \<noteq> False \<and>
   trades_of (fst (snd (apply_ai_recommendations one_bot 1000 declined))) 1000 =
     [\<lparr>tr_timestamp = PNone, tr_price = PNone, tr_direction = PStr ''hold'',
       tr_confidence = PNum 40, tr_should_trade = PBool False\<rparr>]"
  by (simp add: trades_of_apply)
     (simp add: one_bot_def create_bot_def mock_init_def declined_def trades_of_def
        apply_ai_recommendations_def trade_of_def dict_get_def Let_def)

text \<open>
  C10. For every bot id, created or not, \<open>get_bot_stats\<close> returns a record, never \<open>None\<close>:
  the profit is the placeholder, \<open>total_trades\<close> is the length of the trades recorded for
  the id and \<open>last_trade\<close> the latest of them, 0 and \<open>None\<close> for an id the manager has no
  trades for. After any run from the initial manager the trades recorded for an id are
  exactly the recommendations applied to it, in order.
\<close>

theorem mock_stats_always_present:
  "(\<exists>st. get_bot_stats m b = Some st \<and> profit st = ''0.00%'' \<and>
          total_trades st = length (trades_of m b) \<and>
          last_trade st = (if trades_of m b = [] then None else Some (last (trades_of m b)))) \<and>
   (mock_trades m b = None \<longrightarrow>
      get_bot_stats m b = Some \<lparr>profit = ''0.00%'', total_trades = 0, last_trade = None\<rparr>) \<and>
   trades_of (run_calls mock_init calls) b = applied_to b calls"
proof (intro conjI impI)
  show "\<exists>st. get_bot_stats m b = Some st \<and> profit st = ''0.00%'' \<and>
          total_trades st = length (trades_of m b) \<and>
          last_trade st = (if trades_of m b = [] then None else Some (last (trades_of m b)))"
    by (simp add: get_bot_stats_def Let_def)
next
  assume "mock_trades m b = None"
  then show "get_bot_stats m b = Some \<lparr>profit = ''0.00%'', total_trades = 0, last_trade = None\<rparr>"
    by (simp add: get_bot_stats_def trades_of_def Let_def)
next
  have "trades_of mock_init b = []" by (simp add: trades_of_def mock_init_def)
  then show "trades_of (run_calls mock_init calls) b = applied_to b calls"
    by (simp add: trades_of_run_calls)
qed

theorem mock_stats_always_present_witness:
  "mock_trades one_bot 4711 = None \<and>
   get_bot_stats one_bot 4711 =
     Some \<lparr>profit = ''0.00%'', total_trades = 0, last_trade = None\<rparr>"
proof -
  have n: "mock_trades one_bot 4711 = None"
    by (simp add: one_bot_def create_bot_def mock_init_def Let_def)
  from mock_stats_always_present [of one_bot 4711] n show ?thesis by blast
qed

section \<open>Properties of the websocket manager\<close>

subsection \<open>Broadcast\<close>

lemma broadcast_loop_events:
  "snd (broadcast_loop fails data cs d evs) =
     evs @ map (\<lambda>c. if fails c then SendFailed c else Delivered c data) cs"
  by (induction cs arbitrary: d evs) simp_all

lemma broadcast_loop_disconnected:
  "distinct cs \<Longrightarrow> set d \<inter> set cs = {} \<Longrightarrow>
     fst (broadcast_loop fails data cs d evs) = d @ filter fails cs"
proof (induction cs arbitrary: d evs)
  case Nil
  then show ?case by simp
next
  case (Cons c cs)
  then have c: "c \<notin> set d" "c \<notin> set cs" "distinct cs" "set d \<inter> set cs = {}" by auto
  show ?case
  proof (cases "fails c")
    case True
    have "set (set_add c d) \<inter> set cs = {}" using c by (auto simp: set_add_def)
    with Cons.IH [OF c(3) this] True c(1) show ?thesis by (simp add: set_add_def)
  next
    case False
    with Cons.IH [OF c(3) c(4)] show ?thesis by simp
  qed
qed

lemma broadcast_distinct:
  assumes "distinct (active_connections s)"
  shows "active_connections (broadcast env s data) =
           filter (\<lambda>c. \<not> send_fails env c) (active_connections s)"
    and "events (broadcast env s data) =
           events s @ map (\<lambda>c. if send_fails env c then SendFailed c else Delivered c data)
                        (active_connections s)
             @ [Pruned (filter (send_fails env) (active_connections s))]"
proof -
  obtain d evs where l: "broadcast_loop (send_fails env) data (active_connections s) [] [] = (d, evs)"
    by (cases "broadcast_loop (send_fails env) data (active_connections s) [] []")
  have d: "d = filter (send_fails env) (active_connections s)"
    using broadcast_loop_disconnected [OF assms, of "[]" "send_fails env" data "[]"] l by simp
  have e: "evs = map (\<lambda>c. if send_fails env c then SendFailed c else Delivered c data)
                   (active_connections s)"
    using broadcast_loop_events [of "send_fails env" data "active_connections s" "[]" "[]"] l
    by simp
  show "active_connections (broadcast env s data) =
           filter (\<lambda>c. \<not> send_fails env c) (active_connections s)"
    by (simp add: broadcast_def l d cong: filter_cong)
  show "events (broadcast env s data) =
           events s @ map (\<lambda>c. if send_fails env c then SendFailed c else Delivered c data)
                        (active_connections s)
             @ [Pruned (filter (send_fails env) (active_connections s))]"
    by (simp add: broadcast_def l d e)
qed

lemma filter_only:
  "distinct xs \<Longrightarrow> b \<in> set xs \<Longrightarrow> (\<And>x. x \<in> set xs \<Longrightarrow> P x \<longleftrightarrow> x = b) \<Longrightarrow> filter P xs = [b]"
proof (induction xs)
  case Nil
  then show ?case by simp
next
  case (Cons x xs)
  show ?case
  proof (cases "x = b")
    case True
    then have "b \<notin> set xs" using Cons.prems(1) by simp
    then have "filter P xs = []" using Cons.prems(3) by (auto simp: filter_empty_conv)
    moreover have "P x" using Cons.prems(3) True by simp
    ultimately show ?thesis using True by simp
  next
    case False
    then have "b \<in> set xs" using Cons.prems(2) by simp
    moreover have "distinct xs" using Cons.prems(1) by simp
    ultimately have "filter P xs = [b]" using Cons.IH Cons.prems(3) by simp
    moreover have "\<not> P x" using Cons.prems(3) False by simp
    ultimately show ?thesis by simp
  qed
qed

text \<open>
  C3. With the live set {A, B, C}, a send that fails for B and succeeds for A and C: one
  \<open>broadcast\<close> makes three send attempts, delivers the payload to A and to C, and
  afterwards, in a single removal that follows all three attempts, takes exactly B out of
  the live set.
\<close>

theorem broadcast_prunes_only_failed:
  assumes "distinct (active_connections s)"
    and "set (active_connections s) = {A, B, C}"
    and "A \<noteq> B" "A \<noteq> C" "B \<noteq> C"
    and "send_fails env B" "\<not> send_fails env A" "\<not> send_fails env C"
  shows "set (active_connections (broadcast env s data)) = {A, C} \<and>
         (\<exists>sends. events (broadcast env s data) = events s @ sends @ [Pruned [B]] \<and>
                   length sends = 3 \<and>
                   set sends = {Delivered A data, SendFailed B, Delivered C data})"
proof -
  let ?cs = "active_connections s"
  let ?f = "\<lambda>c. if send_fails env c then SendFailed c else Delivered c data"
  have fb: "filter (send_fails env) ?cs = [B]"
  proof (rule filter_only [OF assms(1)])
    show "B \<in> set ?cs" using assms(2) by simp
    fix x assume "x \<in> set ?cs"
    then have "x = A \<or> x = B \<or> x = C" using assms(2) by simp
    then show "send_fails env x \<longleftrightarrow> x = B" using assms(3-8) by auto
  qed
  have len: "length ?cs = 3"
  proof -
    have "length ?cs = card (set ?cs)" using assms(1) by (simp add: distinct_card)
    also have "\<dots> = 3" using assms(2-5) by simp
    finally show ?thesis .
  qed
  have act: "set (active_connections (broadcast env s data)) = {A, C}"
    using assms(2-8) by (auto simp: broadcast_distinct(1) [OF assms(1)])
  have sset: "set (map ?f ?cs) = {Delivered A data, SendFailed B, Delivered C data}"
    using assms(2,6-8) by (simp add: insert_commute)
  have ev: "events (broadcast env s data) = events s @ map ?f ?cs @ [Pruned [B]]"
    by (simp add: broadcast_distinct(2) [OF assms(1)] fb)
  from ev len sset have "\<exists>sends. events (broadcast env s data) = events s @ sends @ [Pruned [B]] \<and>
                   length sends = 3 \<and>
                   set sends = {Delivered A data, SendFailed B, Delivered C data}"
    by (intro exI [of _ "map ?f ?cs"]) simp
  with act show ?thesis by blast
qed

lemma three_clients_active: "active_connections three_clients = [6, 7, 8]"
  by (simp add: three_clients_def connect_accept_def ws_init_def set_add_def)

theorem broadcast_prunes_only_failed_witness:
  "distinct (active_connections three_clients) \<and>
   set (active_connections three_clients) = {6, 7, 8} \<and>
   send_fails client_7_gone 7 \<and> \<not> send_fails client_7_gone 6 \<and>
   \<not> send_fails client_7_gone 8 \<and>
   set (active_connections (broadcast client_7_gone three_clients eth_tick)) = {6, 8} \<and>
   (\<exists>sends. events (broadcast client_7_gone three_clients eth_tick) =
              events three_clients @ sends @ [Pruned [7]] \<and>
            length sends = 3 \<and>
            set sends = {Delivered 6 eth_tick, SendFailed 7, Delivered 8 eth_tick})"
proof -
  have d: "distinct (active_connections three_clients)" by (simp add: three_clients_active)
  have s: "set (active_connections three_clients) = {6, 7, 8}"
    by (simp add: three_clients_active)
  have f: "send_fails client_7_gone 7" "\<not> send_fails client_7_gone 6"
    "\<not> send_fails client_7_gone 8"
    by (simp_all add: client_7_gone_def)
  have n: "(6::nat) \<noteq> 7" "(6::nat) \<noteq> 8" "(7::nat) \<noteq> 8" by simp_all
  from broadcast_prunes_only_failed [OF d s n f, of eth_tick] d s f show ?thesis by blast
qed

subsection \<open>Removal of a connection that is already gone\<close>

text \<open>
  C9 on the code. Client 7 connects, a broadcast fails to reach it and prunes it, then its
  channel ends: the handler of \<open>connect\<close> calls \<open>set.remove\<close> on a set that no longer holds
  the connection, and \<open>KeyError\<close> leaves \<open>connect\<close>.
\<close>

theorem disconnect_after_prune_raises:
  "active_connections (connect_accept ws_init 7) = [7] \<and>
   active_connections (broadcast client_7_gone (connect_accept ws_init 7) eth_tick) = [] \<and>
   connect_closed (broadcast client_7_gone (connect_accept ws_init 7) eth_tick) 7
     = Inl KeyError"
proof -
  have a: "active_connections (connect_accept ws_init 7) = [7]"
    by (simp add: connect_accept_def ws_init_def set_add_def)
  then have d: "distinct (active_connections (connect_accept ws_init 7))" by simp
  have b: "active_connections (broadcast client_7_gone (connect_accept ws_init 7) eth_tick) = []"
    by (simp add: broadcast_distinct(1) [OF d] a client_7_gone_def)
  show ?thesis using a b by (simp add: connect_closed_def set_remove_def)
qed

subsection \<open>The collector\<close>

lemma broadcast_market_data: "market_data (broadcast env s data) = market_data s"
  by (simp add: broadcast_def split: prod.splits)

lemma broadcast_tasks: "tasks (broadcast env s data) = tasks s"
  by (simp add: broadcast_def split: prod.splits)

lemma broadcast_price_callbacks: "price_callbacks (broadcast env s data) = price_callbacks s"
  by (simp add: broadcast_def split: prod.splits)

lemma notify_concat:
  "notify fails data cbs =
     concat (map (\<lambda>cb. if fails cb then [Called cb data, CallbackFailed cb]
                       else [Called cb data]) cbs)"
  by (induction cbs) simp_all

lemma collect_symbols_append:
  "collect_symbols env (xs @ ys) s =
     (case collect_symbols env xs s of
        (None, s') \<Rightarrow> collect_symbols env ys s'
      | (Some e, s') \<Rightarrow> (Some e, s'))"
  by (induction xs arbitrary: s) (simp_all add: Let_def split: sum.splits)

lemma collect_symbols_market_data:
  "sy \<notin> set symbols \<Longrightarrow>
     market_data (snd (collect_symbols env symbols s)) sy = market_data s sy"
  by (induction symbols arbitrary: s)
     (auto simp: Let_def broadcast_market_data split: sum.splits)

lemma collect_symbols_tasks: "tasks (snd (collect_symbols env symbols s)) = tasks s"
  by (induction symbols arbitrary: s)
     (auto simp: Let_def broadcast_tasks split: sum.splits)

lemma subscribe_symbols_tasks: "tasks (subscribe_symbols s symbols) = tasks s"
  by (induction symbols arbitrary: s) simp_all

lemma read_tick_symbol: "read_tick src sy = Inr t \<Longrightarrow> tick_symbol t = sy"
  by (auto simp: read_tick_def split: sum.splits)

lemma read_ticks_symbols:
  "map (read_tick src) syms = map Inr ticks \<Longrightarrow> map tick_symbol ticks = syms"
proof (induction syms arbitrary: ticks)
  case Nil
  then show ?case by simp
next
  case (Cons sy syms)
  then obtain t ts where t: "ticks = t # ts" "read_tick src sy = Inr t"
    "map (read_tick src) syms = map Inr ts"
    by (cases ticks) auto
  with Cons.IH [of ts] read_tick_symbol [of src sy t] show ?case by simp
qed

text \<open>The loop over symbols whose tickers can all be read does what \<open>pass_events\<close> says.\<close>

lemma collect_symbols_trace:
  assumes "distinct (active_connections s)"
    and "map (read_tick (exchange env)) syms = map Inr ticks"
  shows "\<exists>s'. collect_symbols env syms s = (None, s') \<and>
           events s' = events s @ pass_events env (price_callbacks s) (active_connections s) ticks \<and>
           active_connections s' =
             (if syms = [] then active_connections s
              else filter (\<lambda>c. \<not> send_fails env c) (active_connections s)) \<and>
           price_callbacks s' = price_callbacks s"
  using assms
proof (induction syms arbitrary: s ticks)
  case Nil
  then show ?case by simp
next
  case (Cons sy syms)
  from Cons.prems(2) obtain t ts where t: "ticks = t # ts"
    "read_tick (exchange env) sy = Inr t"
    "map (read_tick (exchange env)) syms = map Inr ts"
    by (cases ticks) auto
  define s2 where "s2 = s\<lparr>market_data := (market_data s)(sy \<mapsto> t),
                         events := events s @ notify (callback_fails env) t (price_callbacks s)\<rparr>"
  define s3 where "s3 = broadcast env s2 t"
  have d2: "distinct (active_connections s2)" using Cons.prems(1) by (simp add: s2_def)
  have step: "collect_symbols env (sy # syms) s = collect_symbols env syms s3"
    by (simp add: t(2) Let_def s3_def s2_def)
  have a3: "active_connections s3 = filter (\<lambda>c. \<not> send_fails env c) (active_connections s)"
    using broadcast_distinct(1) [OF d2, of env t] by (simp add: s3_def s2_def)
  have e3: "events s3 = events s @ tick_events env (price_callbacks s) (active_connections s) t"
    using broadcast_distinct(2) [OF d2, of env t]
    by (simp add: s3_def s2_def tick_events_def notify_concat)
  have c3: "price_callbacks s3 = price_callbacks s"
    by (simp add: s3_def broadcast_price_callbacks s2_def)
  have d3: "distinct (active_connections s3)" using Cons.prems(1) by (simp add: a3)
  from Cons.IH [OF d3 t(3)] obtain s' where
    r: "collect_symbols env syms s3 = (None, s')" and
    e: "events s' = events s3 @ pass_events env (price_callbacks s3) (active_connections s3) ts" and
    a: "active_connections s' =
          (if syms = [] then active_connections s3
           else filter (\<lambda>c. \<not> send_fails env c) (active_connections s3))" and
    c: "price_callbacks s' = price_callbacks s3"
    by blast
  have "events s' = events s @ pass_events env (price_callbacks s) (active_connections s) ticks"
    using e by (simp add: e3 c3 a3 t(1))
  moreover have "active_connections s' = filter (\<lambda>c. \<not> send_fails env c) (active_connections s)"
    using a by (simp add: a3)
  moreover have "price_callbacks s' = price_callbacks s" using c c3 by simp
  ultimately show ?case using step r by simp
qed

lemma collect_symbols_updates:
  "distinct syms \<Longrightarrow> map (read_tick (exchange env)) syms = map Inr ticks \<Longrightarrow> i < length syms \<Longrightarrow>
     market_data (snd (collect_symbols env syms s)) (syms ! i) = Some (ticks ! i)"
proof (induction syms arbitrary: s ticks i)
  case Nil
  then show ?case by simp
next
  case (Cons sy syms)
  from Cons.prems(2) obtain t ts where t: "ticks = t # ts"
    "read_tick (exchange env) sy = Inr t"
    "map (read_tick (exchange env)) syms = map Inr ts"
    by (cases ticks) auto
  define s3 where "s3 = broadcast env
      (s\<lparr>market_data := (market_data s)(sy \<mapsto> t),
         events := events s @ notify (callback_fails env) t (price_callbacks s)\<rparr>) t"
  have step: "collect_symbols env (sy # syms) s = collect_symbols env syms s3"
    by (simp add: t(2) Let_def s3_def)
  have m3: "market_data s3 sy = Some t" by (simp add: s3_def broadcast_market_data)
  show ?case
  proof (cases i)
    case 0
    have "sy \<notin> set syms" using Cons.prems(1) by simp
    from collect_symbols_market_data [OF this, of env s3] m3 0 t(1) step
    show ?thesis by simp
  next
    case (Suc j)
    then have "j < length syms" using Cons.prems(3) by simp
    moreover have "distinct syms" using Cons.prems(1) by simp
    ultimately have "market_data (snd (collect_symbols env syms s3)) (syms ! j) = Some (ts ! j)"
      using Cons.IH t(3) by blast
    with Suc t(1) step show ?thesis by simp
  qed
qed

lemma called_in_tick_events:
  "Called cb t \<in> set (tick_events env cbs conns data) \<longleftrightarrow> cb \<in> set cbs \<and> t = data"
  by (induction cbs) (auto simp: tick_events_def)

lemma delivered_in_tick_events:
  "Delivered c t \<in> set (tick_events env cbs conns data) \<longleftrightarrow>
     c \<in> set conns \<and> \<not> send_fails env c \<and> t = data"
proof -
  have a: "Delivered c t \<notin> set (concat (map (\<lambda>cb. if callback_fails env cb
             then [Called cb data, CallbackFailed cb] else [Called cb data]) cbs))"
    by (induction cbs) auto
  have b: "Delivered c t \<in> set (map (\<lambda>c. if send_fails env c then SendFailed c
             else Delivered c data) conns) \<longleftrightarrow> c \<in> set conns \<and> \<not> send_fails env c \<and> t = data"
    by (induction conns) auto
  show ?thesis using a b by (simp add: tick_events_def)
qed

lemma called_in_pass_events:
  "Called cb t \<in> set (pass_events env cbs conns ticks) \<longleftrightarrow> cb \<in> set cbs \<and> t \<in> set ticks"
  by (induction ticks arbitrary: conns) (auto simp: called_in_tick_events)

lemma delivered_in_pass_events:
  "Delivered c t \<in> set (pass_events env cbs conns ticks) \<longleftrightarrow>
     c \<in> set conns \<and> \<not> send_fails env c \<and> t \<in> set ticks"
  by (induction ticks arbitrary: conns) (auto simp: delivered_in_tick_events)

text \<open>A pass that meets a failing symbol after the symbols \<open>before\<close>.\<close>

lemma collect_pass_failure:
  assumes d: "distinct (active_connections s)"
    and ok: "map (read_tick (exchange env)) before = map Inr ticks"
    and bad: "read_tick (exchange env) failing = Inl e"
  shows "\<exists>s1. collect_symbols env before s = (None, s1) \<and>
           events s1 = events s @ pass_events env (price_callbacks s) (active_connections s) ticks \<and>
           collect_pass env (before @ failing # later) s =
             s1\<lparr>events := events s1 @ [CollectError e, Slept 5]\<rparr>"
proof -
  from collect_symbols_trace [OF d ok] obtain s1 where
    s1: "collect_symbols env before s = (None, s1)" and
    e1: "events s1 = events s @ pass_events env (price_callbacks s) (active_connections s) ticks"
    by blast
  have "collect_symbols env (before @ failing # later) s = (Some e, s1)"
    by (simp add: collect_symbols_append s1 bad)
  then have "collect_pass env (before @ failing # later) s =
      s1\<lparr>events := events s1 @ [CollectError e, Slept 5]\<rparr>"
    by (simp add: collect_pass_def)
  with s1 e1 show ?thesis by blast
qed

lemma collect_pass_success:
  assumes d: "distinct (active_connections s)"
    and ok: "map (read_tick (exchange env)) visit = map Inr ticks"
  shows "\<exists>s1. collect_symbols env visit s = (None, s1) \<and>
           events s1 = events s @ pass_events env (price_callbacks s) (active_connections s) ticks \<and>
           collect_pass env visit s = s1\<lparr>events := events s1 @ [Slept 1]\<rparr>"
proof -
  from collect_symbols_trace [OF d ok] obtain s1 where
    s1: "collect_symbols env visit s = (None, s1)" and
    e1: "events s1 = events s @ pass_events env (price_callbacks s) (active_connections s) ticks"
    by blast
  then have "collect_pass env visit s = s1\<lparr>events := events s1 @ [Slept 1]\<rparr>"
    by (simp add: collect_pass_def)
  with s1 e1 show ?thesis by blast
qed

text \<open>
  C8, as the code has it. \<open>start\<close> creates one task, whatever is subscribed, and
  \<open>subscribe_symbols\<close> creates none. In a pass that task visits the subscribed symbols one
  after the other, in the order the set gives. A symbol whose ticker is fetched gets its
  update, every callback is called with its tick, and the tick is delivered to every
  live connection whose send works. When the fetch of a symbol fails, this has happened
  for the symbols visited before it and for no other: the failing symbol and every symbol
  after it keep their state, no callback and no delivery is made for them, and the one
  loop sleeps 5 seconds. When no fetch fails, every symbol is processed and the loop
  sleeps 1 second.
\<close>

theorem single_collector_pass:
  "(\<not> is_running s \<longrightarrow> tasks (snd (start (Inr ()) s)) = tasks s @ [CollectMarketData]) \<and>
   tasks (subscribe_symbols s symbols) = tasks s \<and>
   (visiting_order s (before @ failing # later) \<longrightarrow> distinct (active_connections s) \<longrightarrow>
    map (read_tick (exchange env)) before = map Inr ticks \<longrightarrow>
    read_tick (exchange env) failing = Inl e \<longrightarrow>
      events (collect_pass env (before @ failing # later) s) =
        events s @ pass_events env (price_callbacks s) (active_connections s) ticks
          @ [CollectError e, Slept 5] \<and>
      map tick_symbol ticks = before \<and>
      (\<forall>i < length before.
         market_data (collect_pass env (before @ failing # later) s) (before ! i)
           = Some (ticks ! i)) \<and>
      (\<forall>sy \<in> set (failing # later).
         market_data (collect_pass env (before @ failing # later) s) sy = market_data s sy) \<and>
      (\<forall>cb t. Called cb t \<in> set (events (collect_pass env (before @ failing # later) s)) \<longleftrightarrow>
         Called cb t \<in> set (events s) \<or> cb \<in> set (price_callbacks s) \<and> t \<in> set ticks) \<and>
      (\<forall>c t. Delivered c t \<in> set (events (collect_pass env (before @ failing # later) s)) \<longleftrightarrow>
         Delivered c t \<in> set (events s) \<or>
         c \<in> set (active_connections s) \<and> \<not> send_fails env c \<and> t \<in> set ticks) \<and>
      tasks (collect_pass env (before @ failing # later) s) = tasks s) \<and>
   (visiting_order s visit \<longrightarrow> distinct (active_connections s) \<longrightarrow>
    map (read_tick (exchange env)) visit = map Inr ticks \<longrightarrow>
      events (collect_pass env visit s) =
        events s @ pass_events env (price_callbacks s) (active_connections s) ticks @ [Slept 1] \<and>
      (\<forall>i < length visit. market_data (collect_pass env visit s) (visit ! i) = Some (ticks ! i)))"
proof (intro conjI impI)
  assume "\<not> is_running s"
  then show "tasks (snd (start (Inr ()) s)) = tasks s @ [CollectMarketData]"
    by (simp add: start_def)
next
  show "tasks (subscribe_symbols s symbols) = tasks s" by (rule subscribe_symbols_tasks)
next
  assume v: "visiting_order s (before @ failing # later)"
    and d: "distinct (active_connections s)"
    and ok: "map (read_tick (exchange env)) before = map Inr ticks"
    and bad: "read_tick (exchange env) failing = Inl e"
  let ?p = "collect_pass env (before @ failing # later) s"
  from collect_pass_failure [OF d ok bad, of later] obtain s1 where
    s1: "collect_symbols env before s = (None, s1)" and
    e1: "events s1 = events s @ pass_events env (price_callbacks s) (active_connections s) ticks" and
    p: "?p = s1\<lparr>events := events s1 @ [CollectError e, Slept 5]\<rparr>"
    by blast
  have dist: "distinct (before @ failing # later)" using v by (simp add: visiting_order_def)
  show ev: "events ?p = events s @ pass_events env (price_callbacks s) (active_connections s) ticks
          @ [CollectError e, Slept 5]"
    by (simp add: p e1)
  show "map tick_symbol ticks = before" using ok by (rule read_ticks_symbols)
  show "\<forall>i < length before. market_data ?p (before ! i) = Some (ticks ! i)"
  proof (intro allI impI)
    fix i assume i: "i < length before"
    have "distinct before" using dist by simp
    from collect_symbols_updates [OF this ok i, of s] s1
    show "market_data ?p (before ! i) = Some (ticks ! i)" by (simp add: p)
  qed
  show "\<forall>sy \<in> set (failing # later). market_data ?p sy = market_data s sy"
  proof
    fix sy assume "sy \<in> set (failing # later)"
    then have "sy \<notin> set before" using dist by auto
    from collect_symbols_market_data [OF this, of env s] s1
    show "market_data ?p sy = market_data s sy" by (simp add: p)
  qed
  show "\<forall>cb t. Called cb t \<in> set (events ?p) \<longleftrightarrow>
         Called cb t \<in> set (events s) \<or> cb \<in> set (price_callbacks s) \<and> t \<in> set ticks"
    by (simp add: ev called_in_pass_events)
  show "\<forall>c t. Delivered c t \<in> set (events ?p) \<longleftrightarrow>
         Delivered c t \<in> set (events s) \<or>
         c \<in> set (active_connections s) \<and> \<not> send_fails env c \<and> t \<in> set ticks"
    by (simp add: ev delivered_in_pass_events)
  show "tasks ?p = tasks s"
    using collect_symbols_tasks [of env before s] s1 by (simp add: p)
next
  assume v: "visiting_order s visit" and d: "distinct (active_connections s)"
    and ok: "map (read_tick (exchange env)) visit = map Inr ticks"
  from collect_pass_success [OF d ok] obtain s1 where
    s1: "collect_symbols env visit s = (None, s1)" and
    e1: "events s1 = events s @ pass_events env (price_callbacks s) (active_connections s) ticks" and
    p: "collect_pass env visit s = s1\<lparr>events := events s1 @ [Slept 1]\<rparr>"
    by blast
  show "events (collect_pass env visit s) =
        events s @ pass_events env (price_callbacks s) (active_connections s) ticks @ [Slept 1]"
    by (simp add: p e1)
  show "\<forall>i < length visit. market_data (collect_pass env visit s) (visit ! i) = Some (ticks ! i)"
  proof (intro allI impI)
    fix i assume i: "i < length visit"
    have "distinct visit" using v by (simp add: visiting_order_def)
    from collect_symbols_updates [OF this ok i, of s] s1
    show "market_data (collect_pass env visit s) (visit ! i) = Some (ticks ! i)" by (simp add: p)
  qed
qed

lemma read_tick_eth: "read_tick btc_down ''ETHUSDT'' = Inr eth_tick"
  by (simp add: read_tick_def btc_down_def good_ticker_def ticker_float_def eth_tick_def)

lemma read_tick_btc: "read_tick btc_down ''BTCUSDT'' = Inl (NetworkError ''timeout'')"
  by (simp add: read_tick_def btc_down_def)

lemma started_eq:
  "started = \<lparr>active_connections = [1], market_data = Map.empty, price_callbacks = [1],
              is_running = True, binance_client = True, tasks = [CollectMarketData],
              subscribed_symbols = {}, events = []\<rparr>"
  by (simp add: started_def start_def ws_init_def connect_accept_def set_add_def
      add_price_callback_def)

lemma both_symbols_fields:
  "subscribed_symbols both_symbols = {''BTCUSDT'', ''ETHUSDT''}"
  "active_connections both_symbols = [1]"
  "price_callbacks both_symbols = [1]"
  "tasks both_symbols = [CollectMarketData]"
  "events both_symbols = []"
  by (auto simp: both_symbols_def started_eq)

lemma eth_only_fields:
  "subscribed_symbols eth_only = {''ETHUSDT''}"
  "active_connections eth_only = [1]"
  "price_callbacks eth_only = [1]"
  "events eth_only = []"
  by (simp_all add: eth_only_def started_eq)

lemma exchange_all_clients_fine: "exchange all_clients_fine = btc_down"
  by (simp add: all_clients_fine_def)

theorem single_collector_pass_witness:
  "\<not> is_running ws_init \<and>
   tasks (snd (start (Inr ()) ws_init)) = tasks ws_init @ [CollectMarketData] \<and>
   visiting_order both_symbols ([''ETHUSDT''] @ ''BTCUSDT'' # []) \<and>
   distinct (active_connections both_symbols) \<and>
   map (read_tick (exchange all_clients_fine)) [''ETHUSDT''] = map Inr [eth_tick] \<and>
   read_tick (exchange all_clients_fine) ''BTCUSDT'' = Inl (NetworkError ''timeout'') \<and>
   events (collect_pass all_clients_fine ([''ETHUSDT''] @ ''BTCUSDT'' # []) both_symbols) =
     [Called 1 eth_tick, Delivered 1 eth_tick, Pruned [],
      CollectError (NetworkError ''timeout''), Slept 5] \<and>
   market_data (collect_pass all_clients_fine ([''ETHUSDT''] @ ''BTCUSDT'' # []) both_symbols)
     ''ETHUSDT'' = Some eth_tick \<and>
   market_data (collect_pass all_clients_fine ([''ETHUSDT''] @ ''BTCUSDT'' # []) both_symbols)
     ''BTCUSDT'' = market_data both_symbols ''BTCUSDT'' \<and>
   visiting_order eth_only [''ETHUSDT''] \<and>
   distinct (active_connections eth_only) \<and>
   events (collect_pass all_clients_fine [''ETHUSDT''] eth_only) =
     [Called 1 eth_tick, Delivered 1 eth_tick, Pruned [], Slept 1] \<and>
   market_data (collect_pass all_clients_fine [''ETHUSDT''] eth_only) ''ETHUSDT''
     = Some eth_tick"
proof -
  let ?visit = "[''ETHUSDT''] @ ''BTCUSDT'' # []"
  have r: "\<not> is_running ws_init" by (simp add: ws_init_def)
  have v: "visiting_order both_symbols ?visit"
    by (auto simp: visiting_order_def both_symbols_fields)
  have d: "distinct (active_connections both_symbols)" by (simp add: both_symbols_fields)
  have ok: "map (read_tick (exchange all_clients_fine)) [''ETHUSDT''] = map Inr [eth_tick]"
    by (simp add: exchange_all_clients_fine read_tick_eth)
  have bad: "read_tick (exchange all_clients_fine) ''BTCUSDT'' = Inl (NetworkError ''timeout'')"
    by (simp add: exchange_all_clients_fine read_tick_btc)
  have v1: "visiting_order eth_only [''ETHUSDT'']"
    by (simp add: visiting_order_def eth_only_fields)
  have d1: "distinct (active_connections eth_only)" by (simp add: eth_only_fields)
  note t0 = single_collector_pass
      [of ws_init "[]" "[]" "''BTCUSDT''" "[]" all_clients_fine "[]"
          "NetworkError ''timeout''" "[]"]
  note t1 = single_collector_pass
      [of both_symbols "[]" "[''ETHUSDT'']" "''BTCUSDT''" "[]" all_clients_fine "[eth_tick]"
          "NetworkError ''timeout''" "[]"]
  note t2 = single_collector_pass
      [of eth_only "[]" "[]" "''BTCUSDT''" "[]" all_clients_fine "[eth_tick]"
          "NetworkError ''timeout''" "[''ETHUSDT'']"]
  have a: "tasks (snd (start (Inr ()) ws_init)) = tasks ws_init @ [CollectMarketData]"
    using t0 r by blast
  have b: "events (collect_pass all_clients_fine ?visit both_symbols) =
        events both_symbols
          @ pass_events all_clients_fine (price_callbacks both_symbols)
              (active_connections both_symbols) [eth_tick]
          @ [CollectError (NetworkError ''timeout''), Slept 5] \<and>
      (\<forall>i < length [''ETHUSDT''].
         market_data (collect_pass all_clients_fine ?visit both_symbols) ([''ETHUSDT''] ! i)
           = Some ([eth_tick] ! i)) \<and>
      (\<forall>sy \<in> set (''BTCUSDT'' # []).
         market_data (collect_pass all_clients_fine ?visit both_symbols) sy
           = market_data both_symbols sy)"
    using t1 v d ok bad by blast
  have b1: "events (collect_pass all_clients_fine ?visit both_symbols) =
     [Called 1 eth_tick, Delivered 1 eth_tick, Pruned [],
      CollectError (NetworkError ''timeout''), Slept 5]"
    using b by (simp add: both_symbols_fields tick_events_def all_clients_fine_def)
  have b2: "market_data (collect_pass all_clients_fine ?visit both_symbols) ''ETHUSDT''
      = Some eth_tick"
    using b by simp
  have b3: "market_data (collect_pass all_clients_fine ?visit both_symbols) ''BTCUSDT''
      = market_data both_symbols ''BTCUSDT''"
    using b by simp
  have c: "events (collect_pass all_clients_fine [''ETHUSDT''] eth_only) =
        events eth_only
          @ pass_events all_clients_fine (price_callbacks eth_only)
              (active_connections eth_only) [eth_tick] @ [Slept 1] \<and>
      (\<forall>i < length [''ETHUSDT''].
         market_data (collect_pass all_clients_fine [''ETHUSDT''] eth_only) ([''ETHUSDT''] ! i)
           = Some ([eth_tick] ! i))"
    using t2 v1 d1 ok by blast
  have c1: "events (collect_pass all_clients_fine [''ETHUSDT''] eth_only) =
     [Called 1 eth_tick, Delivered 1 eth_tick, Pruned [], Slept 1]"
    using c by (simp add: eth_only_fields tick_events_def all_clients_fine_def)
  have c2: "market_data (collect_pass all_clients_fine [''ETHUSDT''] eth_only) ''ETHUSDT''
     = Some eth_tick"
    using c by simp
  from r a v d ok bad b1 b2 b3 v1 d1 c1 c2 show ?thesis by blast
qed

text \<open>The two symbols can be visited in two orders only.\<close>

lemma both_symbols_orders:
  assumes "visiting_order both_symbols visit"
  shows "visit = [''BTCUSDT'', ''ETHUSDT''] \<or> visit = [''ETHUSDT'', ''BTCUSDT'']"
proof -
  have s: "set visit = {''BTCUSDT'', ''ETHUSDT''}" and d: "distinct visit"
    using assms by (simp_all add: visiting_order_def both_symbols_fields)
  have "length visit = card (set visit)" using d by (simp add: distinct_card)
  also have "\<dots> = 2" by (simp add: s)
  finally obtain x y where xy: "visit = [x, y]"
    by (cases visit; cases "tl visit") auto
  with s have "{x, y} = {''BTCUSDT'', ''ETHUSDT''}" by simp
  then have "x = ''BTCUSDT'' \<and> y = ''ETHUSDT'' \<or> x = ''ETHUSDT'' \<and> y = ''BTCUSDT''"
    by (simp add: doubleton_eq_iff)
  with xy show ?thesis by blast
qed

text \<open>
  C8 as stated fails with two subscribed symbols of which \<open>BTCUSDT\<close> cannot be fetched.
  There is one task for both. Visited first, the failure leaves \<open>ETHUSDT\<close> without update,
  callback and broadcast in that pass; visited second, it still puts the 5-second sleep
  in front of the next update of \<open>ETHUSDT\<close>. These are the two orders there are.
\<close>

theorem one_failure_stalls_all_symbols_counterexample:
  "subscribed_symbols both_symbols = {''BTCUSDT'', ''ETHUSDT''} \<and>
   tasks both_symbols = [CollectMarketData] \<and>
   read_tick (exchange all_clients_fine) ''ETHUSDT'' = Inr eth_tick \<and>
   visiting_order both_symbols [''BTCUSDT'', ''ETHUSDT''] \<and>
   collect_pass all_clients_fine [''BTCUSDT'', ''ETHUSDT''] both_symbols =
     both_symbols\<lparr>events := [CollectError (NetworkError ''timeout''), Slept 5]\<rparr> \<and>
   visiting_order both_symbols [''ETHUSDT'', ''BTCUSDT''] \<and>
   events (collect_pass all_clients_fine [''ETHUSDT'', ''BTCUSDT''] both_symbols) =
     [Called 1 eth_tick, Delivered 1 eth_tick, Pruned [],
      CollectError (NetworkError ''timeout''), Slept 5]"
proof -
  have a: "collect_pass all_clients_fine [''BTCUSDT'', ''ETHUSDT''] both_symbols =
     both_symbols\<lparr>events := [CollectError (NetworkError ''timeout''), Slept 5]\<rparr>"
    by (simp add: collect_pass_def both_symbols_fields exchange_all_clients_fine read_tick_btc)
  have b: "events (collect_pass all_clients_fine [''ETHUSDT'', ''BTCUSDT''] both_symbols) =
     [Called 1 eth_tick, Delivered 1 eth_tick, Pruned [],
      CollectError (NetworkError ''timeout''), Slept 5]"
    by (simp add: collect_pass_def both_symbols_fields exchange_all_clients_fine read_tick_btc
        read_tick_eth Let_def broadcast_def all_clients_fine_def)
  have v1: "visiting_order both_symbols [''BTCUSDT'', ''ETHUSDT'']"
    by (simp add: visiting_order_def both_symbols_fields)
  have v2: "visiting_order both_symbols [''ETHUSDT'', ''BTCUSDT'']"
    by (auto simp: visiting_order_def both_symbols_fields)
  show ?thesis
    using a b v1 v2
    by (simp add: both_symbols_fields exchange_all_clients_fine read_tick_eth)
qed

section \<open>Properties of the orchestrator\<close>

lemma process_trading_pair_returns: "\<exists>tb'. process_trading_pair env tb pair = Inr tb'"
  by (simp add: process_trading_pair_def split: prod.splits option.splits)

lemma run_pairs_chain:
  "\<exists>tbs. length tbs = Suc (length pairs) \<and> tbs ! 0 = tb \<and>
         (\<forall>i < length pairs. process_trading_pair env (tbs ! i) (pairs ! i) = Inr (tbs ! Suc i)) \<and>
         run_pairs env tb pairs = Inr (last tbs)"
proof (induction pairs arbitrary: tb)
  case Nil
  show ?case by (rule exI [of _ "[tb]"]) simp
next
  case (Cons p ps)
  obtain tb' where p: "process_trading_pair env tb p = Inr tb'"
    using process_trading_pair_returns by blast
  from Cons.IH [of tb'] obtain tbs where
    l: "length tbs = Suc (length ps)" and h: "tbs ! 0 = tb'" and
    st: "\<forall>i < length ps. process_trading_pair env (tbs ! i) (ps ! i) = Inr (tbs ! Suc i)" and
    r: "run_pairs env tb' ps = Inr (last tbs)"
    by blast
  have ne: "tbs \<noteq> []" using l by auto
  have "\<forall>i < length (p # ps).
          process_trading_pair env ((tb # tbs) ! i) ((p # ps) ! i) = Inr ((tb # tbs) ! Suc i)"
  proof (intro allI impI)
    fix i assume i: "i < length (p # ps)"
    show "process_trading_pair env ((tb # tbs) ! i) ((p # ps) ! i) = Inr ((tb # tbs) ! Suc i)"
    proof (cases i)
      case 0
      then show ?thesis using p h by simp
    next
      case (Suc j)
      then have "j < length ps" using i by simp
      with st Suc show ?thesis by simp
    qed
  qed
  moreover have "run_pairs env tb (p # ps) = Inr (last (tb # tbs))"
    using p r ne by simp
  moreover have "length (tb # tbs) = Suc (length (p # ps))" using l by simp
  moreover have "(tb # tbs) ! 0 = tb" by simp
  ultimately show ?case by blast
qed

lemma active_bots_apply:
  "active_bots (fst (snd (apply_ai_recommendations m bot_id r))) = active_bots m"
  by (simp add: apply_ai_recommendations_def Let_def)

lemma process_pair_no_data:
  assumes "fetch_snapshot (market_source env) pair = Inl e" "cached_data tb pair = None"
  shows "process_trading_pair env tb pair =
           Inr (tb\<lparr>logged := logged tb @ [FetchError pair e, NoMarketData pair]\<rparr>)"
  using assms
  by (simp add: process_trading_pair_def process_steps_def get_market_data_failure write_log_def)

lemma process_pair_mock_success:
  assumes "manager env = mock_interface"
    and "fetch_snapshot (market_source env) pair = Inr snap"
    and "analyze_market env snap = Inr (Some analysis)" "analysis \<noteq> []"
    and "active_bots (bot_manager tb) pair = Some bot_id" "bot_id \<noteq> 0"
  shows "\<exists>tb'. process_trading_pair env tb pair = Inr tb' \<and>
           logged tb' = logged tb @
             [MockApplied bot_id, UpdatedBot pair,
              StatusUpdate pair (current_price snap) (price_change_24h snap) ''0.00%''
                (dict_get analysis ''average_confidence'' (PStr ''Unknown''))]"
proof -
  obtain ok m' lg where
    ap: "apply_ai_recommendations (bot_manager tb) bot_id analysis = (ok, m', lg)"
    by (cases "apply_ai_recommendations (bot_manager tb) bot_id analysis")
  have ok: "ok" and lg: "lg = [MockApplied bot_id]"
    using ap by (simp_all add: apply_ai_recommendations_def Let_def)
  have ab: "active_bots m' pair = Some bot_id"
    using active_bots_apply [of "bot_manager tb" bot_id analysis] ap assms(5) by simp
  show ?thesis
    using assms ap ok lg ab
    by (simp add: process_trading_pair_def process_steps_def get_market_data_success
        mock_interface_def write_log_def log_status_def get_bot_stats_def Let_def)
qed

lemma run_pairs_append:
  "run_pairs env tb (xs @ ys) =
     (case run_pairs env tb xs of Inl e \<Rightarrow> Inl e | Inr tb' \<Rightarrow> run_pairs env tb' ys)"
  by (induction xs arbitrary: tb) (simp_all split: sum.splits)

lemma log_status_bot_manager: "bot_manager (log_status env tb pair snap analysis) = bot_manager tb"
  by (simp add: log_status_def write_log_def split: option.splits sum.splits)

lemma active_bots_apply_eq:
  "apply_ai_recommendations m bot_id r = (ok, m', lg) \<Longrightarrow> active_bots m' = active_bots m"
  using active_bots_apply [of m bot_id r] by simp

lemma process_pair_mock_active_bots:
  assumes "manager env = mock_interface" "process_trading_pair env tb pair = Inr tb'"
  shows "active_bots (bot_manager tb') = active_bots (bot_manager tb)"
proof -
  have "active_bots (bot_manager (snd (process_steps env tb pair))) = active_bots (bot_manager tb)"
    using assms(1)
    by (auto simp: process_steps_def mock_interface_def write_log_def log_status_bot_manager
        Let_def split: prod.splits option.splits sum.splits dest: active_bots_apply_eq)
  then show ?thesis
    using assms(2)
    by (auto simp: process_trading_pair_def write_log_def split: prod.splits option.splits)
qed

lemma run_pairs_mock_active_bots:
  "manager env = mock_interface \<Longrightarrow> run_pairs env tb pairs = Inr tb' \<Longrightarrow>
     active_bots (bot_manager tb') = active_bots (bot_manager tb)"
proof (induction pairs arbitrary: tb)
  case Nil
  then show ?case by simp
next
  case (Cons p ps)
  obtain tb1 where p: "process_trading_pair env tb p = Inr tb1"
    using process_trading_pair_returns by blast
  with Cons.prems have "run_pairs env tb1 ps = Inr tb'" by simp
  with Cons.IH Cons.prems(1) have "active_bots (bot_manager tb') = active_bots (bot_manager tb1)"
    by blast
  with process_pair_mock_active_bots [OF Cons.prems(1) p] show ?case by simp
qed

lemma run_pairs_returns: "\<exists>tb'. run_pairs env tb pairs = Inr tb'"
  using run_pairs_chain [of pairs tb env] by blast

text \<open>
  C4. \<open>process_trading_pair\<close> returns whatever its steps raise, so one round of \<open>run\<close>
  processes every configured pair once, in order, none of them ending the round. With
  the mock manager, a pair \<open>P2\<close> whose fetch and analysis succeed and which has a bot gets
  its status record whatever the pairs before it did; and when \<open>P1\<close> has neither a
  fetchable snapshot nor a cached one, the round over \<open>P1\<close>, \<open>P2\<close> logs the failure of \<open>P1\<close>
  and then, after the mock's own line, the status record of \<open>P2\<close>. (The exceptions of
  the model are those that \<open>except Exception\<close> catches.)
\<close>

theorem pair_failures_are_contained:
  "(\<exists>tb'. process_trading_pair env tb pair = Inr tb') \<and>
   (\<exists>tbs. length tbs = Suc (length pairs) \<and> tbs ! 0 = tb \<and>
      (\<forall>i < length pairs.
          process_trading_pair env (tbs ! i) (pairs ! i) = Inr (tbs ! Suc i)) \<and>
      run_pairs env tb pairs = Inr (last tbs)) \<and>
   (manager env = mock_interface \<longrightarrow>
    fetch_snapshot (market_source env) P2 = Inr snap \<longrightarrow>
    analyze_market env snap = Inr (Some analysis) \<longrightarrow> analysis \<noteq> [] \<longrightarrow>
    active_bots (bot_manager tb) P2 = Some bot_id \<longrightarrow> bot_id \<noteq> 0 \<longrightarrow>
      (\<exists>tb' lg. run_pairs env tb (earlier @ [P2]) = Inr tb' \<and>
         logged tb' = lg @
           [UpdatedBot P2,
            StatusUpdate P2 (current_price snap) (price_change_24h snap) ''0.00%''
              (dict_get analysis ''average_confidence'' (PStr ''Unknown''))]) \<and>
      (fetch_snapshot (market_source env) P1 = Inl e \<longrightarrow> cached_data tb P1 = None \<longrightarrow>
         (\<exists>tb'. run_pairs env tb [P1, P2] = Inr tb' \<and>
            logged tb' = logged tb @
              [FetchError P1 e, NoMarketData P1, MockApplied bot_id, UpdatedBot P2,
               StatusUpdate P2 (current_price snap) (price_change_24h snap) ''0.00%''
                 (dict_get analysis ''average_confidence'' (PStr ''Unknown''))])))"
proof (intro conjI impI)
  show "\<exists>tb'. process_trading_pair env tb pair = Inr tb'"
    by (rule process_trading_pair_returns)
next
  show "\<exists>tbs. length tbs = Suc (length pairs) \<and> tbs ! 0 = tb \<and>
      (\<forall>i < length pairs.
          process_trading_pair env (tbs ! i) (pairs ! i) = Inr (tbs ! Suc i)) \<and>
      run_pairs env tb pairs = Inr (last tbs)"
    by (rule run_pairs_chain)
next
  assume man: "manager env = mock_interface"
    and f2: "fetch_snapshot (market_source env) P2 = Inr snap"
    and a2: "analyze_market env snap = Inr (Some analysis)" and ne: "analysis \<noteq> []"
    and b2: "active_bots (bot_manager tb) P2 = Some bot_id" and nz: "bot_id \<noteq> 0"
  obtain tb1 where r1: "run_pairs env tb earlier = Inr tb1" using run_pairs_returns by blast
  have "active_bots (bot_manager tb1) P2 = Some bot_id"
    using run_pairs_mock_active_bots [OF man r1] b2 by simp
  from process_pair_mock_success [OF man f2 a2 ne this nz]
  obtain tb2 where p2: "process_trading_pair env tb1 P2 = Inr tb2"
    and l2: "logged tb2 = logged tb1 @
             [MockApplied bot_id, UpdatedBot P2,
              StatusUpdate P2 (current_price snap) (price_change_24h snap) ''0.00%''
                (dict_get analysis ''average_confidence'' (PStr ''Unknown''))]"
    by blast
  have l3: "logged tb2 = (logged tb1 @ [MockApplied bot_id]) @
             [UpdatedBot P2,
              StatusUpdate P2 (current_price snap) (price_change_24h snap) ''0.00%''
                (dict_get analysis ''average_confidence'' (PStr ''Unknown''))]"
    using l2 by simp
  have "run_pairs env tb (earlier @ [P2]) = Inr tb2"
    by (simp add: run_pairs_append r1 p2)
  with l3 show "\<exists>tb' lg. run_pairs env tb (earlier @ [P2]) = Inr tb' \<and>
         logged tb' = lg @
           [UpdatedBot P2,
            StatusUpdate P2 (current_price snap) (price_change_24h snap) ''0.00%''
              (dict_get analysis ''average_confidence'' (PStr ''Unknown''))]"
    by blast
next
  assume man: "manager env = mock_interface"
    and f2: "fetch_snapshot (market_source env) P2 = Inr snap"
    and a2: "analyze_market env snap = Inr (Some analysis)" and ne: "analysis \<noteq> []"
    and b2: "active_bots (bot_manager tb) P2 = Some bot_id" and nz: "bot_id \<noteq> 0"
    and f1: "fetch_snapshot (market_source env) P1 = Inl e" and c1: "cached_data tb P1 = None"
  let ?tb1 = "tb\<lparr>logged := logged tb @ [FetchError P1 e, NoMarketData P1]\<rparr>"
  have p1: "process_trading_pair env tb P1 = Inr ?tb1"
    using f1 c1 by (rule process_pair_no_data)
  have "active_bots (bot_manager ?tb1) P2 = Some bot_id" using b2 by simp
  from process_pair_mock_success [OF man f2 a2 ne this nz]
  obtain tb2 where p2: "process_trading_pair env ?tb1 P2 = Inr tb2"
    and l2: "logged tb2 = logged ?tb1 @
             [MockApplied bot_id, UpdatedBot P2,
              StatusUpdate P2 (current_price snap) (price_change_24h snap) ''0.00%''
                (dict_get analysis ''average_confidence'' (PStr ''Unknown''))]"
    by blast
  have "run_pairs env tb [P1, P2] = Inr tb2" by (simp add: p1 p2)
  with l2 show "\<exists>tb'. run_pairs env tb [P1, P2] = Inr tb' \<and>
            logged tb' = logged tb @
              [FetchError P1 e, NoMarketData P1, MockApplied bot_id, UpdatedBot P2,
               StatusUpdate P2 (current_price snap) (price_change_24h snap) ''0.00%''
                 (dict_get analysis ''average_confidence'' (PStr ''Unknown''))]"
    by simp
qed

lemma fetch_snapshot_btc_down_eth: "fetch_snapshot btc_down ''ETHUSDT'' = Inr eth_snapshot"
  by (simp add: fetch_snapshot_def btc_down_def good_ticker_def ticker_float_def
      calculate_trend_def calculate_volatility_def calculate_indicators_def eth_snapshot_def)

lemma fetch_snapshot_btc_down_btc:
  "fetch_snapshot btc_down ''BTCUSDT'' = Inl (NetworkError ''timeout'')"
  by (simp add: fetch_snapshot_def btc_down_def)

lemma two_bots_active: "active_bots two_bots ''ETHUSDT'' = Some 1001"
  by (simp add: two_bots_def create_bot_def mock_init_def Let_def)

theorem pair_failures_are_contained_witness:
  "manager mock_cycle_env = mock_interface \<and>
   fetch_snapshot (market_source mock_cycle_env) ''BTCUSDT'' = Inl (NetworkError ''timeout'') \<and>
   cached_data fresh_bot ''BTCUSDT'' = None \<and>
   fetch_snapshot (market_source mock_cycle_env) ''ETHUSDT'' = Inr eth_snapshot \<and>
   analyze_market mock_cycle_env eth_snapshot = Inr (Some buy_signal) \<and> buy_signal \<noteq> [] \<and>
   active_bots (bot_manager fresh_bot) ''ETHUSDT'' = Some 1001 \<and>
   (\<exists>tb'. run_pairs mock_cycle_env fresh_bot [''BTCUSDT'', ''ETHUSDT''] = Inr tb' \<and>
      logged tb' =
        [FetchError ''BTCUSDT'' (NetworkError ''timeout''), NoMarketData ''BTCUSDT'',
         MockApplied 1001, UpdatedBot ''ETHUSDT'',
         StatusUpdate ''ETHUSDT'' 2000 1 ''0.00%'' (PNum 90)])"
proof -
  have man: "manager mock_cycle_env = mock_interface" by (simp add: mock_cycle_env_def)
  have f1: "fetch_snapshot (market_source mock_cycle_env) ''BTCUSDT''
              = Inl (NetworkError ''timeout'')"
    by (simp add: mock_cycle_env_def fetch_snapshot_btc_down_btc)
  have c1: "cached_data fresh_bot ''BTCUSDT'' = None" by (simp add: fresh_bot_def)
  have f2: "fetch_snapshot (market_source mock_cycle_env) ''ETHUSDT'' = Inr eth_snapshot"
    by (simp add: mock_cycle_env_def fetch_snapshot_btc_down_eth)
  have a2: "analyze_market mock_cycle_env eth_snapshot = Inr (Some buy_signal)"
    by (simp add: mock_cycle_env_def)
  have ne: "buy_signal \<noteq> []" by (simp add: buy_signal_def)
  have b2: "active_bots (bot_manager fresh_bot) ''ETHUSDT'' = Some 1001"
    by (simp add: fresh_bot_def two_bots_active)
  have nz: "(1001::int) \<noteq> 0" by simp
  have v: "current_price eth_snapshot = 2000" "price_change_24h eth_snapshot = 1"
    "dict_get buy_signal ''average_confidence'' (PStr ''Unknown'') = PNum 90"
    "logged fresh_bot = []"
    by (simp_all add: eth_snapshot_def buy_signal_def dict_get_def fresh_bot_def)
  from pair_failures_are_contained
         [of mock_cycle_env fresh_bot "''BTCUSDT''" "[]" "''ETHUSDT''" eth_snapshot buy_signal
             1001 "[]" "''BTCUSDT''" "NetworkError ''timeout''"]
       man f1 c1 f2 a2 ne b2 nz
  have "\<exists>tb'. run_pairs mock_cycle_env fresh_bot [''BTCUSDT'', ''ETHUSDT''] = Inr tb' \<and>
      logged tb' = logged fresh_bot @
        [FetchError ''BTCUSDT'' (NetworkError ''timeout''), NoMarketData ''BTCUSDT'',
         MockApplied 1001, UpdatedBot ''ETHUSDT'',
         StatusUpdate ''ETHUSDT'' (current_price eth_snapshot) (price_change_24h eth_snapshot)
           ''0.00%'' (dict_get buy_signal ''average_confidence'' (PStr ''Unknown''))]"
    by blast
  then have "\<exists>tb'. run_pairs mock_cycle_env fresh_bot [''BTCUSDT'', ''ETHUSDT''] = Inr tb' \<and>
      logged tb' =
        [FetchError ''BTCUSDT'' (NetworkError ''timeout''), NoMarketData ''BTCUSDT'',
         MockApplied 1001, UpdatedBot ''ETHUSDT'',
         StatusUpdate ''ETHUSDT'' 2000 1 ''0.00%'' (PNum 90)]"
    by (simp add: v)
  with man f1 c1 f2 a2 ne b2 show ?thesis by blast
qed

end
